theory Spec2Isabelle
  imports Complex_Main "HOL-Library.Word" "HOL-Library.AList" "HOL-Library.Multiset"
begin

unbundle bit_operations_syntax

section \<open>JSON values\<close>

text \<open>
  The code builds and reads JSON documents through nlohmann::json. A document is modelled
  by the datatype below. An object is an association list; a key is looked up with
  \<open>map_of\<close> and stored with \<open>AList.update\<close> (replace the binding, or add one), which is
  what \<open>operator[]\<close> followed by an assignment does on a JSON object.
  Integers and unsigned integers are \<open>JInt\<close>, doubles are \<open>JFloat\<close>, read as reals.
\<close>

datatype json =
    JNull
  | JBool bool
  | JInt int
  | JFloat real
  | JString string
  | JArray "json list"
  | JObject "(string \<times> json) list"

text \<open>Reading a member of an object; \<open>None\<close> when the value is no object or has no such key.\<close>

fun json_get :: "json \<Rightarrow> string \<Rightarrow> json option" where
  "json_get (JObject kvs) k = map_of kvs k"
| "json_get j k = None"

text \<open>
  Storing a member, which is what \<open>operator[]\<close> followed by an assignment does: a null
  value becomes an object first, and on a value that is neither null nor an object
  \<open>operator[]\<close> throws, which is \<open>None\<close>.
\<close>

fun json_set :: "json \<Rightarrow> string \<Rightarrow> json \<Rightarrow> json option" where
  "json_set JNull k v = Some (JObject [(k, v)])"
| "json_set (JObject kvs) k v = Some (JObject (AList.update k v kvs))"
| "json_set j k v = None"

fun is_null_or_object :: "json \<Rightarrow> bool" where
  "is_null_or_object JNull = True"
| "is_null_or_object (JObject kvs) = True"
| "is_null_or_object j = False"

text \<open>Reading along a path of keys.\<close>

fun json_path :: "json \<Rightarrow> string list \<Rightarrow> json option" where
  "json_path j [] = Some j"
| "json_path j (k # ks) = (case json_get j k of None \<Rightarrow> None | Some j' \<Rightarrow> json_path j' ks)"

section \<open>Data model\<close>

datatype LogLevel = log_quiet | log_err | log_warning | log_info | log_debug | log_debug2

record ErrContext =
  code :: int
  library_name :: string
  library_version :: string
  reason :: string

text \<open>\<open>ErrContext err{}\<close>: the code defaults to 1, the strings are empty.\<close>

definition ErrContext_default :: ErrContext where
  "ErrContext_default = \<lparr>code = 1, library_name = '''', library_version = '''', reason = ''''\<rparr>"

definition default_engine_name :: string where
  "default_engine_name = ''libnettest2''"

definition digit_char :: "nat \<Rightarrow> char" where
  "digit_char d = ''0123456789abcdef'' ! d"

text \<open>\<open>std::to_string\<close> and \<open>operator<<\<close> on an unsigned number: its decimal digits.\<close>

fun to_string :: "nat \<Rightarrow> string" where
  "to_string n = (if n < 10 then [digit_char n] else to_string (n div 10) @ [digit_char (n mod 10)])"

declare to_string.simps [simp del]

definition version_major :: nat where "version_major = 0"
definition version_minor :: nat where "version_minor = 6"
definition version_patch :: nat where "version_patch = 0"

definition version :: string where
  "version = to_string version_major @ ''.'' @ to_string version_minor @ ''.'' @ to_string version_patch"

record Settings =
  annotations :: "(string \<times> string) list"
  inputs :: "string list"
  input_filepaths :: "string list"
  log_filepath :: string
  log_level :: LogLevel
  name :: string
  output_filepath :: string
  all_endpoints :: bool
  bouncer_base_url :: string
  ca_bundle_path :: string
  collector_base_url :: string
  engine_name :: string
  engine_version :: string
  engine_version_full :: string
  geoip_asn_path :: string
  geoip_country_path :: string
  max_runtime :: "16 word"
  no_asn_lookup :: bool
  no_bouncer :: bool
  no_cc_lookup :: bool
  no_collector :: bool
  no_file_report :: bool
  no_ip_lookup :: bool
  no_resolver_lookup :: bool
  parallelism :: "8 word"
  platform :: string
  port :: "16 word"
  probe_ip :: string
  probe_asn :: string
  probe_network_name :: string
  probe_cc :: string
  randomize_input :: bool
  save_real_probe_asn :: bool
  save_real_probe_ip :: bool
  save_real_probe_cc :: bool
  save_real_resolver_ip :: bool
  server :: string
  software_name :: string
  software_version :: string

text \<open>The member initialisers of class Settings.\<close>

definition Settings_default :: Settings where
  "Settings_default = \<lparr>
     annotations = [], inputs = [], input_filepaths = [], log_filepath = '''',
     log_level = log_warning, name = '''', output_filepath = '''',
     all_endpoints = False, bouncer_base_url = ''https://bouncer.ooni.io'',
     ca_bundle_path = '''', collector_base_url = '''',
     engine_name = default_engine_name, engine_version = version,
     engine_version_full = version, geoip_asn_path = '''', geoip_country_path = '''',
     max_runtime = 90, no_asn_lookup = False, no_bouncer = False, no_cc_lookup = False,
     no_collector = False, no_file_report = False, no_ip_lookup = False,
     no_resolver_lookup = False, parallelism = 0, platform = '''', port = 0,
     probe_ip = '''', probe_asn = '''', probe_network_name = '''', probe_cc = '''',
     randomize_input = True, save_real_probe_asn = True, save_real_probe_ip = False,
     save_real_probe_cc = True, save_real_resolver_ip = True, server = '''',
     software_name = default_engine_name, software_version = version\<rparr>"

type_synonym EndpointType = "8 word"

definition endpoint_type_none :: EndpointType where "endpoint_type_none = 0"
definition endpoint_type_onion :: EndpointType where "endpoint_type_onion = 1"
definition endpoint_type_cloudfront :: EndpointType where "endpoint_type_cloudfront = 2"
definition endpoint_type_https :: EndpointType where "endpoint_type_https = 3"

record EndpointInfo =
  ep_type :: EndpointType
  address :: string
  front :: string

text \<open>
  The context of a run. \<open>test_helpers\<close> is a \<open>std::map\<close> from the helper's name to its
  endpoints, here the list of its entries in iteration order. The context is written with
  a \<open>ctx_\<close> prefix where a field shares its name with a field of Settings.
\<close>

record NettestContext =
  collectors :: "EndpointInfo list"
  ctx_probe_asn :: string
  ctx_probe_cc :: string
  ctx_probe_ip :: string
  ctx_probe_network_name :: string
  report_id :: string
  resolver_ip :: string
  test_helpers :: "(string \<times> EndpointInfo list) list"

definition NettestContext_empty :: NettestContext where
  "NettestContext_empty = \<lparr>collectors = [], ctx_probe_asn = '''', ctx_probe_cc = '''',
     ctx_probe_ip = '''', ctx_probe_network_name = '''', report_id = '''',
     resolver_ip = '''', test_helpers = []\<rparr>"

section \<open>Events\<close>

text \<open>
  \<open>emit_ev key value\<close> hands the object \<open>{"key": key, "value": value}\<close> to the sink. An
  event is the pair of its key and its value, and a run is described by the list of the
  events it emits, oldest first. The events with key \<open>log\<close> (the EMIT_WARNING, EMIT_INFO
  and EMIT_DEBUG macros, which depend on the log level only and change no state) are left
  out of the list: it is the trace of a run as a sink that drops log lines sees it.
\<close>

type_synonym event = "string \<times> json"

definition emit_ev :: "string \<Rightarrow> json \<Rightarrow> event list" where
  "emit_ev key v = [(key, v)]"

definition to_json :: "ErrContext \<Rightarrow> json" where
  "to_json ec = JObject [(''code'', JInt (code ec)), (''library_name'', JString (library_name ec)),
     (''library_version'', JString (library_version ec)), (''reason'', JString (reason ec))]"

section \<open>The environment of a run\<close>

text \<open>
  Everything the Runner obtains from outside: the nettest (a capability interface), the
  HTTP transport, the MMDB and resolver libraries, the clocks, the random device and the
  JSON library's parser and serialiser. Each is a field of the record below, a function
  of the arguments of the call. A call made once per measurement takes the measurement's
  index as well, so that two measurements may get different answers.

  A failing transport call answers \<open>Inl\<close> with the error context it left behind; a JSON
  call that throws answers \<open>Inl\<close> with the exception's message.

  A nettest returns its result and the JSON value it left in \<open>test_keys\<close>, which it
  receives null and may set to any value.

  \<open>bouncer_reply\<close> is the outcome of reading the bouncer's response: whether reading
  threw, and the collectors and test helpers collected up to then. \<open>json_what\<close> is the
  message of the exception thrown when a member is missing or has the wrong type.
  \<open>mmdb_asn\<close> answers the error of MMDB_open, of the lookup or of the first get_value, or
  the AS number with the outcome of the second get_value; \<open>mmdb_cc\<close> likewise.
  \<open>getaddrinfo\<close> answers its error code and message, or for each address found the
  outcome of getnameinfo. \<open>mt19937\<close> is the stream of numbers that drives the shuffle.
  \<open>bytes_down\<close> and \<open>bytes_up\<close> are the counters as the end of the run reads them.
\<close>

datatype call = Call_run | Call_measurement "32 word"

record env =
  LIBNETTEST2_PLATFORM :: string
  nlohmann_json_version :: string
  nt_name :: string
  nt_version :: string
  nt_test_helpers :: "string list"
  nt_needs_input :: bool
  nt_run :: "32 word \<Rightarrow> Settings \<Rightarrow> NettestContext \<Rightarrow> string \<Rightarrow> bool \<times> json"
  dump :: "json \<Rightarrow> string + string"
  json_parse :: "string \<Rightarrow> string + json"
  curlx_post_json :: "call \<Rightarrow> string \<Rightarrow> string \<Rightarrow> ErrContext + string"
  curlx_get :: "string \<Rightarrow> ErrContext + string"
  steady_elapsed :: "32 word \<Rightarrow> real"
  nettest_elapsed :: "32 word \<Rightarrow> real"
  date_format_now :: "call \<Rightarrow> string"
  random_device :: "32 word \<Rightarrow> 64 word \<times> 64 word"
  bouncer_reply ::
    "string \<Rightarrow> (string + unit) \<times> EndpointInfo list \<times> (string \<times> EndpointInfo list) list"
  json_what :: "json \<Rightarrow> string"
  mmdb_asn :: "string \<Rightarrow> string \<Rightarrow> ErrContext + (32 word \<times> (ErrContext + string))"
  mmdb_cc :: "string \<Rightarrow> string \<Rightarrow> ErrContext + string"
  getaddrinfo :: "(int \<times> string) + string option list"
  mt19937 :: "nat \<Rightarrow> nat"
  bytes_down :: "64 word"
  bytes_up :: "64 word"

text \<open>The error context after a JSON exception: the code stays 1.\<close>

definition json_err :: "env \<Rightarrow> string \<Rightarrow> ErrContext" where
  "json_err E what = \<lparr>code = 1, library_name = ''nlohmann/json'',
     library_version = nlohmann_json_version E, reason = what\<rparr>"

section \<open>Helpers of the Runner\<close>

text \<open>\<open>format_system_clock_now\<close>: the formatted time, cut at the first dot.\<close>

definition format_system_clock_now :: "env \<Rightarrow> call \<Rightarrow> string" where
  "format_system_clock_now E c = takeWhile (\<lambda>ch. ch \<noteq> CHR ''.'') (date_format_now E c)"

function without_final_slash :: "string \<Rightarrow> string" where
  "without_final_slash src =
     (if length src > 0 \<and> src ! (length src - 1) = CHR ''/''
      then without_final_slash (take (length src - 1) src) else src)"
  by pat_completeness auto
termination
  by (relation "measure length") auto

declare without_final_slash.simps [simp del]

subsection \<open>UUID4\<close>

fun to_hex :: "nat \<Rightarrow> string" where
  "to_hex n = (if n < 16 then [digit_char n] else to_hex (n div 16) @ [digit_char (n mod 16)])"

declare to_hex.simps [simp del]

text \<open>\<open>std::hex\<close>, \<open>std::setfill('0')\<close> and \<open>std::setw(w)\<close>: at least \<open>w\<close> digits.\<close>

definition setw_hex :: "nat \<Rightarrow> nat \<Rightarrow> string" where
  "setw_hex w n = replicate (w - length (to_hex n)) (CHR ''0'') @ to_hex n"

record uuid =
  ab :: "64 word"
  cd :: "64 word"

definition uuid_str :: "uuid \<Rightarrow> string" where
  "uuid_str u =
     (let a = (ucast (drop_bit 32 (ab u)) :: 32 word);
          b = (ucast (ab u AND 0xFFFFFFFF) :: 32 word);
          c = (ucast (drop_bit 32 (cd u)) :: 32 word);
          d = (ucast (cd u AND 0xFFFFFFFF) :: 32 word)
      in setw_hex 8 (unat a) @ ''-'' @ setw_hex 4 (unat (drop_bit 16 b)) @ ''-''
         @ setw_hex 4 (unat (b AND 0xFFFF)) @ ''-'' @ setw_hex 4 (unat (drop_bit 16 c)) @ ''-''
         @ setw_hex 4 (unat (c AND 0xFFFF)) @ setw_hex 8 (unat d))"

definition uuid4 :: "64 word \<times> 64 word \<Rightarrow> uuid" where
  "uuid4 rd = \<lparr>ab = (fst rd AND 0xFFFFFFFFFFFF0FFF) OR 0x0000000000004000,
               cd = (snd rd AND 0x3FFFFFFFFFFFFFFF) OR 0x8000000000000000\<rparr>"

subsection \<open>The collector client: update_report\<close>

definition update_report ::
  "env \<Rightarrow> 32 word \<Rightarrow> string \<Rightarrow> string \<Rightarrow> string \<Rightarrow> ErrContext + unit" where
  "update_report E i base rid json_str =
     (let url = without_final_slash base @ ''/report/'' @ rid;
          message = JObject [(''content'', JString json_str), (''format'', JString ''json'')]
      in case dump E message of
           Inl what \<Rightarrow> Inl (json_err E what)
         | Inr requestbody \<Rightarrow>
             (case curlx_post_json E (Call_measurement i) url requestbody of
                Inl e \<Rightarrow> Inl e
              | Inr responsebody \<Rightarrow> Inr ()))"

section \<open>run_with_index32\<close>

definition annotations_json :: "env \<Rightarrow> Settings \<Rightarrow> NettestContext \<Rightarrow> json" where
  "annotations_json E st ctx =
     JObject
       (AList.update ''probe_network_name''
          (JString (if save_real_probe_asn st then ctx_probe_network_name ctx else []))
       (AList.update ''platform''
          (JString (if platform st \<noteq> [] then platform st else LIBNETTEST2_PLATFORM E))
       (AList.update ''engine_version_full'' (JString (engine_version_full st))
       (AList.update ''engine_version'' (JString (engine_version st))
       (AList.update ''engine_name'' (JString (engine_name st))
          (map (\<lambda>(k, v). (k, JString v)) (annotations st)))))))"

text \<open>One endpoint of a test helper, as the inner loop writes it.\<close>

definition helper_json :: "EndpointInfo \<Rightarrow> json" where
  "helper_json epnt =
     JObject ((''address'', JString (address epnt)) #
       (if ep_type epnt = endpoint_type_onion then [(''type'', JString ''onion'')]
        else if ep_type epnt = endpoint_type_https then [(''type'', JString ''https'')]
        else if ep_type epnt = endpoint_type_cloudfront
          then [(''type'', JString ''cloudfront''), (''front'', JString (front epnt))]
        else []))"

text \<open>The iteration over \<open>ctx.test_helpers\<close> and, inside, over the endpoints: the last endpoint of a helper stays.\<close>

definition test_helpers_json :: "NettestContext \<Rightarrow> json" where
  "test_helpers_json ctx =
     JObject (fold (\<lambda>(k, vs) acc. fold (\<lambda>epnt acc'. AList.update k (helper_json epnt) acc') vs acc)
                   (test_helpers ctx) [])"

text \<open>
  The record as it stands when the nettest is called. The keys are pairwise different,
  so the assignments of the source, in their order, give this list.
\<close>

definition measurement_before ::
  "env \<Rightarrow> Settings \<Rightarrow> string \<Rightarrow> NettestContext \<Rightarrow> 32 word \<Rightarrow> string \<Rightarrow> (string \<times> json) list" where
  "measurement_before E st test_start_time ctx i inp =
     [(''annotations'', annotations_json E st ctx),
      (''id'', JString (uuid_str (uuid4 (random_device E i)))),
      (''input'', JString inp),
      (''input_hashes'', JArray []),
      (''measurement_start_time'', JString (format_system_clock_now E (Call_measurement i))),
      (''options'', JArray []),
      (''probe_asn'', JString (if save_real_probe_asn st then ctx_probe_asn ctx else [])),
      (''probe_cc'', JString (if save_real_probe_cc st then ctx_probe_cc ctx else [])),
      (''probe_city'', JNull),
      (''probe_ip'', JString (if save_real_probe_ip st then ctx_probe_ip ctx else [])),
      (''report_id'', JString (report_id ctx)),
      (''sotfware_name'', JString (software_name st)),
      (''sotfware_version'', JString (software_version st)),
      (''test_helpers'', test_helpers_json ctx),
      (''test_name'', JString (nt_name E)),
      (''test_start_time'', JString test_start_time),
      (''test_version'', JString (nt_version E))]"

text \<open>
  The record after the nettest has returned: the runtime, the test keys, and in the test
  keys the resolver. Storing the resolver throws when the nettest left in \<open>test_keys\<close> a
  value that is neither null nor an object; then there is no record.
\<close>

definition measurement_after ::
  "env \<Rightarrow> Settings \<Rightarrow> NettestContext \<Rightarrow> 32 word \<Rightarrow> (string \<times> json) list \<Rightarrow>
   json \<Rightarrow> json option" where
  "measurement_after E st ctx i m test_keys =
     (case json_set test_keys ''client_resolver''
             (JString (if save_real_resolver_ip st then resolver_ip ctx else [])) of
        None \<Rightarrow> None
      | Some tk \<Rightarrow>
          Some (JObject
                 (AList.update ''test_keys'' tk
                 (AList.update ''test_runtime'' (JFloat (nettest_elapsed E i)) m))))"

text \<open>
  The submission block (the \<open>do ... while (0)\<close> after the nettest): the events it emits
  and the string it hands to update_report, if it does.
\<close>

definition submit_measurement ::
  "env \<Rightarrow> Settings \<Rightarrow> NettestContext \<Rightarrow> string \<Rightarrow> 32 word \<Rightarrow> json \<Rightarrow> event list \<times> string option" where
  "submit_measurement E st ctx base i measurement =
     (case dump E measurement of
        Inl what \<Rightarrow> ([], None)
      | Inr str \<Rightarrow>
          (let (evs, sub) =
             (if \<not> no_collector st \<and> report_id ctx \<noteq> [] then
                (case update_report E i base (report_id ctx) str of
                   Inl err \<Rightarrow>
                     (emit_ev ''failure.measurement_submission''
                        (JObject [(''failure'', JString ''library_error''),
                                  (''library_error_context'', to_json err),
                                  (''idx'', JInt (uint i)),
                                  (''json_str'', JString str)]), Some str)
                 | Inr u \<Rightarrow>
                     (emit_ev ''status.measurement_submission'' (JObject [(''idx'', JInt (uint i))]),
                      Some str))
              else if report_id ctx = [] then
                (emit_ev ''failure.measurement_submission''
                   (JObject [(''failure'', JString ''report_not_open_error'')]), None)
              else ([], None))
           in (evs @ emit_ev ''measurement''
                       (JObject [(''idx'', JInt (uint i)), (''json_str'', JString str)]), sub)))"

text \<open>
  A call of run_with_index32 does not return in two cases. Reading \<open>inputs[i]\<close> beyond the
  vector has no defined behaviour. And the function is \<open>noexcept\<close>, so the exception of
  \<open>operator[]\<close> on test keys that are neither null nor an object ends the process
  (\<open>std::terminate\<close>).
\<close>

datatype fault = Out_of_range | Terminated

text \<open>
  What a call of run_with_index32 leaves behind: the events, the record it built (none
  when it ended before building one), the string it submitted, its result, and the fault
  that kept it from returning, if any; the result counts only when there is no fault.
\<close>

record rwi_out =
  rwi_events :: "event list"
  rwi_measurement :: "json option"
  rwi_submitted :: "string option"
  rwi_rv :: bool
  rwi_fault :: "fault option"

text \<open>
  The \<open>info\<close> pointer is the Runner's own BytesInfo and never null.
  \<open>max_runtime\<close> is unsigned, so \<open>max_runtime >= 0\<close> holds.
\<close>

definition run_with_index32 ::
  "env \<Rightarrow> Settings \<Rightarrow> string \<Rightarrow> string list \<Rightarrow> NettestContext \<Rightarrow> string \<Rightarrow> 32 word \<Rightarrow>
   rwi_out" where
  "run_with_index32 E st test_start_time inps ctx base i =
     (if steady_elapsed E i \<ge> real (unat (max_runtime st)) * 0.9 then
        \<lparr>rwi_events = [], rwi_measurement = None, rwi_submitted = None, rwi_rv = False,
         rwi_fault = None\<rparr>
      else if \<not> unat i < length inps then
        \<lparr>rwi_events = [], rwi_measurement = None, rwi_submitted = None, rwi_rv = False,
         rwi_fault = Some Out_of_range\<rparr>
      else
        (let inp = inps ! unat i;
             ev_start = emit_ev ''status.measurement_start''
                          (JObject [(''idx'', JInt (uint i)), (''input'', JString inp)]);
             m = measurement_before E st test_start_time ctx i inp;
             (rv, test_keys) = nt_run E i st ctx inp
         in case measurement_after E st ctx i m test_keys of
              None \<Rightarrow>
                \<lparr>rwi_events = ev_start, rwi_measurement = None, rwi_submitted = None,
                 rwi_rv = False, rwi_fault = Some Terminated\<rparr>
            | Some measurement \<Rightarrow>
                (let ev_failure = (if \<not> rv then
                                     emit_ev ''failure.measurement''
                                       (JObject [(''failure'', JString ''generic_error''),
                                                 (''idx'', JInt (uint i))])
                                   else []);
                     (ev_submit, sub) = submit_measurement E st ctx base i measurement
                 in \<lparr>rwi_events = ev_start @ ev_failure @ ev_submit
                          @ emit_ev ''status.measurement_done'' (JObject [(''idx'', JInt (uint i))]),
                      rwi_measurement = Some measurement,
                      rwi_submitted = sub,
                      rwi_rv = True,
                      rwi_fault = None\<rparr>)))"


definition record_field :: "rwi_out \<Rightarrow> string list \<Rightarrow> json option" where
  "record_field r path =
     (case rwi_measurement r of None \<Rightarrow> None | Some m \<Rightarrow> json_path m path)"

text \<open>An environment with the nettest's result replaced by success, its test keys kept.\<close>

definition succeeding :: "env \<Rightarrow> env" where
  "succeeding E = E\<lparr>nt_run := (\<lambda>i st ctx inp. (True, snd (nt_run E i st ctx inp)))\<rparr>"




section \<open>The stages of a run\<close>

definition progress_ev :: "real \<Rightarrow> string \<Rightarrow> event" where
  "progress_ev p msg = (''status.progress'', JObject [(''percentage'', JFloat p), (''message'', JString msg)])"

definition library_failure_ev :: "string \<Rightarrow> ErrContext \<Rightarrow> event" where
  "library_failure_ev key err =
     (key, JObject [(''failure'', JString ''library_error''), (''library_error_context'', to_json err)])"

subsection \<open>The bouncer\<close>

text \<open>
  query_bouncer clears both results, posts the request and reads the response. It
  answers its result and what the two results hold when it returns.
\<close>

definition query_bouncer ::
  "env \<Rightarrow> Settings \<Rightarrow> (ErrContext + unit) \<times> EndpointInfo list \<times> (string \<times> EndpointInfo list) list" where
  "query_bouncer E st =
     (let doc = JObject [(''net-tests'', JArray [JObject
                  [(''input-hashes'', JNull), (''name'', JString (nt_name E)),
                   (''test-helpers'', JArray (map JString (nt_test_helpers E))),
                   (''version'', JString (nt_version E))]])]
      in case dump E doc of
           Inl what \<Rightarrow> (Inl (json_err E what), [], [])
         | Inr requestbody \<Rightarrow>
             (case curlx_post_json E Call_run
                     (without_final_slash (bouncer_base_url st) @ ''/bouncer/net-tests'') requestbody of
                Inl e \<Rightarrow> (Inl e, [], [])
              | Inr responsebody \<Rightarrow>
                  (case bouncer_reply E responsebody of
                     (Inl what, cs, hs) \<Rightarrow> (Inl (json_err E what), cs, hs)
                   | (Inr u, cs, hs) \<Rightarrow> (Inr (), cs, hs))))"

subsection \<open>The probe's address\<close>

text \<open>\<open>std::string::find\<close>: the position of the first occurrence.\<close>

fun str_find :: "string \<Rightarrow> string \<Rightarrow> nat option" where
  "str_find [] pat = (if pat = [] then Some 0 else None)"
| "str_find (c # cs) pat =
     (if take (length pat) (c # cs) = pat then Some 0 else map_option Suc (str_find cs pat))"

text \<open>\<open>isspace\<close> and \<open>tolower\<close> in the C locale, on the code of the character.\<close>

definition isspace :: "char \<Rightarrow> bool" where
  "isspace ch = (of_char ch = (32 :: nat) \<or> (9 \<le> (of_char ch :: nat) \<and> (of_char ch :: nat) \<le> 13))"

definition tolower :: "char \<Rightarrow> char" where
  "tolower ch = (if 65 \<le> (of_char ch :: nat) \<and> (of_char ch :: nat) \<le> 90
                 then char_of ((of_char ch :: nat) + 32) else ch)"

text \<open>
  xml_extract appends to \<open>result\<close> what lies between the two tags, without spaces and in
  lower case. \<open>None\<close> is the result false, which leaves \<open>result\<close> as it was.
\<close>

definition xml_extract :: "string \<Rightarrow> string \<Rightarrow> string \<Rightarrow> string \<Rightarrow> string option" where
  "xml_extract inp open_tag close_tag result =
     (case str_find inp open_tag of
        None \<Rightarrow> None
      | Some pos \<Rightarrow>
          (let inp1 = drop (pos + length open_tag) inp
           in case str_find inp1 close_tag of
                None \<Rightarrow> None
              | Some pos' \<Rightarrow>
                  Some (result @ map tolower (filter (\<lambda>ch. \<not> isspace ch) (take pos' inp1)))))"

text \<open>
  lookup_ip takes the string that \<open>ip\<close> points to and answers its result together with
  what the string holds when it returns. The first thing it does is to clear the string.
\<close>

definition lookup_ip :: "env \<Rightarrow> string \<Rightarrow> (ErrContext + unit) \<times> string" where
  "lookup_ip E ip0 =
     (let ip = [] in
      case curlx_get E ''https://geoip.ubuntu.com/lookup'' of
        Inl e \<Rightarrow> (Inl e, ip)
      | Inr responsebody \<Rightarrow>
          (case xml_extract responsebody ''<Ip>'' ''</Ip>'' ip of
             None \<Rightarrow> (Inl ErrContext_default, ip)
           | Some ip' \<Rightarrow> (Inr (), ip')))"

definition stage_probe_ip :: "env \<Rightarrow> Settings \<Rightarrow> NettestContext \<Rightarrow> event list \<times> NettestContext" where
  "stage_probe_ip E st ctx =
     (if probe_ip st = [] then
        (let ctx1 = ctx\<lparr>ctx_probe_ip := ''127.0.0.1''\<rparr> in
         if \<not> no_ip_lookup st then
           (case lookup_ip E (ctx_probe_ip ctx1) of
              (Inl err, ip) \<Rightarrow>
                ([library_failure_ev ''failure.ip_lookup'' err], ctx1\<lparr>ctx_probe_ip := ip\<rparr>)
            | (Inr u, ip) \<Rightarrow> ([], ctx1\<lparr>ctx_probe_ip := ip\<rparr>))
         else ([], ctx1))
      else ([], ctx\<lparr>ctx_probe_ip := probe_ip st\<rparr>))"

subsection \<open>The probe's network and country\<close>

definition lookup_asn :: "env \<Rightarrow> string \<Rightarrow> string \<Rightarrow> (ErrContext + unit) \<times> string \<times> string" where
  "lookup_asn E dbpath ip =
     (case mmdb_asn E dbpath ip of
        Inl e \<Rightarrow> (Inl e, [], [])
      | Inr (n, org) \<Rightarrow>
          (case org of
             Inl e \<Rightarrow> (Inl e, ''AS'' @ to_string (unat n), [])
           | Inr nm \<Rightarrow> (Inr (), ''AS'' @ to_string (unat n), nm)))"

definition stage_probe_asn :: "env \<Rightarrow> Settings \<Rightarrow> NettestContext \<Rightarrow> event list \<times> NettestContext" where
  "stage_probe_asn E st ctx =
     (if probe_asn st = [] then
        (let ctx1 = ctx\<lparr>ctx_probe_asn := ''AS0''\<rparr> in
         if \<not> no_asn_lookup st then
           (case lookup_asn E (geoip_asn_path st) (ctx_probe_ip ctx1) of
              (Inl err, asn, nm) \<Rightarrow>
                ([library_failure_ev ''failure.asn_lookup'' err],
                 ctx1\<lparr>ctx_probe_asn := asn, ctx_probe_network_name := nm\<rparr>)
            | (Inr u, asn, nm) \<Rightarrow>
                ([], ctx1\<lparr>ctx_probe_asn := asn, ctx_probe_network_name := nm\<rparr>))
         else ([], ctx1))
      else ([], ctx\<lparr>ctx_probe_network_name := probe_network_name st,
                     ctx_probe_asn := probe_asn st\<rparr>))"

definition lookup_cc :: "env \<Rightarrow> string \<Rightarrow> string \<Rightarrow> (ErrContext + unit) \<times> string" where
  "lookup_cc E dbpath ip =
     (case mmdb_cc E dbpath ip of
        Inl e \<Rightarrow> (Inl e, [])
      | Inr cc \<Rightarrow> (Inr (), cc))"

definition stage_probe_cc :: "env \<Rightarrow> Settings \<Rightarrow> NettestContext \<Rightarrow> event list \<times> NettestContext" where
  "stage_probe_cc E st ctx =
     (if probe_cc st = [] then
        (let ctx1 = ctx\<lparr>ctx_probe_cc := ''ZZ''\<rparr> in
         if \<not> no_cc_lookup st then
           (case lookup_cc E (geoip_country_path st) (ctx_probe_ip ctx1) of
              (Inl err, cc) \<Rightarrow>
                ([library_failure_ev ''failure.cc_lookup'' err], ctx1\<lparr>ctx_probe_cc := cc\<rparr>)
            | (Inr u, cc) \<Rightarrow> ([], ctx1\<lparr>ctx_probe_cc := cc\<rparr>))
         else ([], ctx1))
      else ([], ctx\<lparr>ctx_probe_cc := probe_cc st\<rparr>))"

definition geoip_lookup_ev :: "NettestContext \<Rightarrow> event" where
  "geoip_lookup_ev ctx =
     (''status.geoip_lookup'',
      JObject [(''probe_cc'', JString (ctx_probe_cc ctx)), (''probe_asn'', JString (ctx_probe_asn ctx)),
               (''probe_ip'', JString (ctx_probe_ip ctx)),
               (''probe_network_name'', JString (ctx_probe_network_name ctx))])"

subsection \<open>The resolver\<close>

text \<open>The loop over the addresses: it stops at the first name, or when getnameinfo fails.\<close>

fun resolver_loop :: "string option list \<Rightarrow> string \<Rightarrow> string" where
  "resolver_loop [] ip = ip"
| "resolver_loop (ai # rest) ip =
     (if ip \<noteq> [] then ip
      else case ai of None \<Rightarrow> ip | Some host \<Rightarrow> resolver_loop rest host)"

definition lookup_resolver_ip :: "env \<Rightarrow> (ErrContext + unit) \<times> string" where
  "lookup_resolver_ip E =
     (case getaddrinfo E of
        Inl (rv, msg) \<Rightarrow>
          (Inl \<lparr>code = rv, library_name = ''libc/getaddrinfo'', library_version = [], reason = msg\<rparr>, [])
      | Inr rp \<Rightarrow>
          (let ip = resolver_loop rp []
           in if ip \<noteq> [] then (Inr (), ip) else (Inl ErrContext_default, ip)))"

definition stage_resolver :: "env \<Rightarrow> Settings \<Rightarrow> NettestContext \<Rightarrow> event list \<times> NettestContext" where
  "stage_resolver E st ctx =
     (if \<not> no_resolver_lookup st then
        (case lookup_resolver_ip E of
           (Inl err, ip) \<Rightarrow>
             ([library_failure_ev ''failure.resolver_lookup'' err], ctx\<lparr>resolver_ip := ip\<rparr>)
         | (Inr u, ip) \<Rightarrow> ([], ctx\<lparr>resolver_ip := ip\<rparr>))
      else ([], ctx))"

subsection \<open>Opening and closing the report\<close>

definition open_report ::
  "env \<Rightarrow> Settings \<Rightarrow> string \<Rightarrow> string \<Rightarrow> NettestContext \<Rightarrow> (ErrContext + unit) \<times> string" where
  "open_report E st base test_start_time ctx =
     (let doc = JObject
            [(''data_format_version'', JString ''0.2.0''), (''format'', JString ''json''),
             (''input_hashes'', JArray []), (''probe_asn'', JString (ctx_probe_asn ctx)),
             (''probe_cc'', JString (ctx_probe_cc ctx)),
             (''software_name'', JString (software_name st)),
             (''software_version'', JString (software_version st)),
             (''test_name'', JString (nt_name E)), (''test_start_time'', JString test_start_time),
             (''test_version'', JString (nt_version E))]
      in case dump E doc of
           Inl what \<Rightarrow> (Inl (json_err E what), [])
         | Inr requestbody \<Rightarrow>
             (case curlx_post_json E Call_run (without_final_slash base @ ''/report'') requestbody of
                Inl e \<Rightarrow> (Inl e, [])
              | Inr responsebody \<Rightarrow>
                  (case json_parse E responsebody of
                     Inl what \<Rightarrow> (Inl (json_err E what), [])
                   | Inr reply \<Rightarrow>
                       (case json_get reply ''report_id'' of
                          Some (JString rid) \<Rightarrow> (Inr (), rid)
                        | _ \<Rightarrow> (Inl (json_err E (json_what E reply)), [])))))"

definition close_report :: "env \<Rightarrow> string \<Rightarrow> string \<Rightarrow> ErrContext + unit" where
  "close_report E base rid =
     (case curlx_post_json E Call_run (without_final_slash base @ ''/report/'' @ rid @ ''/close'') [] of
        Inl e \<Rightarrow> Inl e
      | Inr responsebody \<Rightarrow> Inr ())"

text \<open>The loop over the collectors: the address of the first one of type https.\<close>

fun discovered_collector :: "EndpointInfo list \<Rightarrow> string \<Rightarrow> string" where
  "discovered_collector [] base = base"
| "discovered_collector (epnt # rest) base =
     (if ep_type epnt = endpoint_type_https then address epnt else discovered_collector rest base)"

text \<open>
  The stage that opens the report answers its events, the context, the collector's base
  URL that the later stages use, and the base URL that open_report was called with, if it
  was called.
\<close>

definition stage_open_report ::
  "env \<Rightarrow> Settings \<Rightarrow> string \<Rightarrow> NettestContext \<Rightarrow>
   event list \<times> NettestContext \<times> string \<times> string option" where
  "stage_open_report E st test_start_time ctx =
     (if \<not> no_collector st then
        (if collector_base_url st = [] then
           (let base = discovered_collector (collectors ctx) [] in
            case open_report E st base test_start_time ctx of
              (Inl err, rid) \<Rightarrow>
                ([library_failure_ev ''failure.report_create'' err],
                 ctx\<lparr>report_id := rid\<rparr>, base, Some base)
            | (Inr u, rid) \<Rightarrow>
                (emit_ev ''status.report_create'' (JObject [(''report_id'', JString rid)]),
                 ctx\<lparr>report_id := rid\<rparr>, base, Some base))
         else ([], ctx, collector_base_url st, None))
      else ([], ctx, [], None))"

definition stage_close_report :: "env \<Rightarrow> Settings \<Rightarrow> NettestContext \<Rightarrow> string \<Rightarrow> event list" where
  "stage_close_report E st ctx base =
     (if \<not> no_collector st \<and> report_id ctx \<noteq> [] then
        (case close_report E base (report_id ctx) of
           Inl err \<Rightarrow> [library_failure_ev ''failure.report_close'' err]
         | Inr u \<Rightarrow> emit_ev ''status.report_close'' (JObject [(''report_id'', JString (report_id ctx))]))
      else if report_id ctx = [] then
        emit_ev ''failure.report_close'' (JObject [(''failure'', JString ''report_not_open_error'')])
      else [])"

subsection \<open>Preparing the inputs\<close>

text \<open>
  \<open>std::shuffle\<close> draws a permutation from the generator: from the last position down, each
  element is exchanged with one at or below it, chosen by the next number of the stream.
\<close>

definition swap :: "nat \<Rightarrow> nat \<Rightarrow> 'a list \<Rightarrow> 'a list" where
  "swap i j xs = (if i < length xs \<and> j < length xs then xs[i := xs ! j, j := xs ! i] else xs)"

fun shuffle_from :: "(nat \<Rightarrow> nat) \<Rightarrow> nat \<Rightarrow> 'a list \<Rightarrow> 'a list" where
  "shuffle_from rnd 0 xs = xs"
| "shuffle_from rnd (Suc i) xs = shuffle_from rnd i (swap (Suc i) (rnd (Suc i) mod Suc (Suc i)) xs)"

definition shuffle :: "(nat \<Rightarrow> nat) \<Rightarrow> 'a list \<Rightarrow> 'a list" where
  "shuffle rnd xs = shuffle_from rnd (length xs - 1) xs"

definition prepare_inputs :: "env \<Rightarrow> Settings \<Rightarrow> string list" where
  "prepare_inputs E st =
     (let inps = (if nt_needs_input E then inputs st else [''''])
      in if randomize_input st then shuffle (mt19937 E) inps else inps)"

definition default_parallelism :: "8 word" where
  "default_parallelism = 3"

definition choose_parallelism :: "env \<Rightarrow> Settings \<Rightarrow> 8 word" where
  "choose_parallelism E st =
     (if nt_needs_input E = False then 1
      else if parallelism st > 0 then parallelism st else default_parallelism)"

section \<open>The parallel dispatcher\<close>

text \<open>
  The main thread creates the worker threads, detaches each, and then waits:
  \<^verbatim>\<open>while (active > 0) sleep(250 ms)\<close>. A worker thread runs
  \<^verbatim>\<open>active += 1;
  while (!interrupted_) { lock; if (i > UINT32_MAX || i >= size) break; idx = i; i += 1; unlock;
                          if (!run_with_index32(..., idx, ...)) break; }
  active -= 1;\<close>
  over the shared counters \<open>active\<close> and \<open>i\<close>. The counter \<open>active\<close> is zero when the
  threads are created, and it is the worker itself that counts itself in.

  A worker is at one of these places: created and not yet counted in (\<open>WStart\<close>), about
  to read the interrupt flag (\<open>WCheck\<close>), about to enter the critical section (\<open>WLock\<close>),
  holding an index and about to call run_with_index32 (\<open>WRun\<close>), or counted out
  (\<open>WDone\<close>). Counting itself in, reading the flag, the critical section, and the call
  are the steps of a worker; the events of a call enter the trace together, and a worker
  that leaves its loop counts itself out in the same step.

  The threads interleave as a schedule says: \<open>Pick k\<close> lets the k-th of the workers that
  are not yet counted out (counted modulo their number) take its next step, \<open>Interrupt\<close>
  is a call of \<open>Runner::interrupt\<close> from outside, and \<open>Poll\<close> is the main thread reading
  \<open>active\<close>: it goes on when it reads zero, and sleeps otherwise. When the schedule is
  used up, the workers step, the first of them first, and then the main thread reads
  \<open>active\<close>.

  The dispatcher ends when the main thread goes on (\<open>d_main_left\<close>), or when a call of
  run_with_index32 does not return (\<open>d_fault\<close>). When the main thread goes on while a
  worker is not yet counted out, the worker is left behind with references to locals of
  \<open>run\<close> whose lifetime ends (\<open>active\<close>, \<open>i\<close>, the mutex and the inputs at the end of the
  block, the context at the return): what it does from then on is not defined, and the
  trace of the model holds none of it.

  A call of run_with_index32 with an index outside the inputs does not arise, since the
  critical section has compared the index with their number; the step is written out for
  that case all the same.
\<close>

datatype wstate = WStart | WCheck | WLock | WRun "32 word" | WDone

datatype sched_ev = Pick nat | Interrupt | Poll

record dstate =
  d_i :: "64 word"
  d_active :: "8 word"
  d_interrupted :: bool
  d_workers :: "wstate list"
  d_events :: "event list"
  d_claims :: "(nat \<times> 32 word) list"
  d_fault :: "fault option"
  d_main_left :: bool

definition UINT32_MAX :: "64 word" where
  "UINT32_MAX = 0xFFFFFFFF"

definition set_worker :: "nat \<Rightarrow> wstate \<Rightarrow> dstate \<Rightarrow> dstate" where
  "set_worker w ws s = s\<lparr>d_workers := (d_workers s)[w := ws]\<rparr>"

text \<open>A worker leaves its loop: \<open>active -= 1\<close>.\<close>

definition leave :: "nat \<Rightarrow> dstate \<Rightarrow> dstate" where
  "leave w s = set_worker w WDone (s\<lparr>d_active := d_active s - 1\<rparr>)"

definition worker_step ::
  "env \<Rightarrow> Settings \<Rightarrow> string \<Rightarrow> string list \<Rightarrow> NettestContext \<Rightarrow> string \<Rightarrow> nat \<Rightarrow> dstate \<Rightarrow> dstate" where
  "worker_step E st test_start_time inps ctx base w s =
     (case d_workers s ! w of
        WStart \<Rightarrow> set_worker w WCheck (s\<lparr>d_active := d_active s + 1\<rparr>)
      | WCheck \<Rightarrow> (if d_interrupted s then leave w s else set_worker w WLock s)
      | WLock \<Rightarrow>
          (if d_i s > UINT32_MAX \<or> unat (d_i s) \<ge> length inps then leave w s
           else set_worker w (WRun (ucast (d_i s)))
                  (s\<lparr>d_i := d_i s + 1, d_claims := d_claims s @ [(w, ucast (d_i s))]\<rparr>))
      | WRun idx \<Rightarrow>
          (let out = run_with_index32 E st test_start_time inps ctx base idx;
               s' = s\<lparr>d_events := d_events s @ rwi_events out\<rparr>
           in case rwi_fault out of
                Some f \<Rightarrow> set_worker w WDone (s'\<lparr>d_fault := Some f\<rparr>)
              | None \<Rightarrow> (if rwi_rv out then set_worker w WCheck s' else leave w s'))
      | WDone \<Rightarrow> s)"

text \<open>Whether a worker has counted itself in, and not yet out.\<close>

fun counted_in :: "wstate \<Rightarrow> bool" where
  "counted_in WStart = False"
| "counted_in WDone = False"
| "counted_in w = True"

definition live :: "wstate list \<Rightarrow> nat list" where
  "live ws = filter (\<lambda>w. ws ! w \<noteq> WDone) [0..<length ws]"

text \<open>
  The dispatcher ends: every step of a worker brings it nearer to the end of its loop, or
  moves the counter towards the 32-bit ceiling.
\<close>

fun weight :: "wstate \<Rightarrow> nat" where
  "weight WDone = 0"
| "weight WLock = 1"
| "weight WCheck = 2"
| "weight (WRun idx) = 3"
| "weight WStart = 3"

definition work_left :: "dstate \<Rightarrow> nat" where
  "work_left s = 3 * (2 ^ 32 - unat (d_i s)) + sum_list (map weight (d_workers s))"

function dispatch ::
  "env \<Rightarrow> Settings \<Rightarrow> string \<Rightarrow> string list \<Rightarrow> NettestContext \<Rightarrow> string \<Rightarrow> sched_ev list \<Rightarrow>
   dstate \<Rightarrow> dstate" where
  "dispatch E st test_start_time inps ctx base sched s =
     (if d_fault s \<noteq> None \<or> d_main_left s then s
      else case sched of
             [] \<Rightarrow>
               (if live (d_workers s) = [] then s\<lparr>d_main_left := (d_active s = 0)\<rparr>
                else dispatch E st test_start_time inps ctx base []
                       (worker_step E st test_start_time inps ctx base (hd (live (d_workers s))) s))
           | Interrupt # rest \<Rightarrow>
               dispatch E st test_start_time inps ctx base rest (s\<lparr>d_interrupted := True\<rparr>)
           | Poll # rest \<Rightarrow>
               (if d_active s = 0 then s\<lparr>d_main_left := True\<rparr>
                else dispatch E st test_start_time inps ctx base rest s)
           | Pick k # rest \<Rightarrow>
               (if live (d_workers s) = [] then dispatch E st test_start_time inps ctx base rest s
                else dispatch E st test_start_time inps ctx base rest
                       (worker_step E st test_start_time inps ctx base
                          (live (d_workers s) ! (k mod length (live (d_workers s)))) s)))"
  by pat_completeness auto
termination
proof (relation "measure (\<lambda>(E, st, tst, inps, ctx, base, sched, s). length sched + work_left s)")
  show "wf (measure (\<lambda>(E, st, tst, inps, ctx, base, sched, s). length sched + work_left s))"
    by simp
next
  have upd: "\<And>ws w x. w < length ws \<Longrightarrow>
      sum_list (map weight (ws[w := x])) + weight (ws ! w) = sum_list (map weight ws) + weight x"
  proof -
    fix ws :: "wstate list" and w x
    show "w < length ws \<Longrightarrow>
      sum_list (map weight (ws[w := x])) + weight (ws ! w) = sum_list (map weight ws) + weight x"
      by (induction ws arbitrary: w) (auto split: nat.splits)
  qed
  have step: "\<And>E st tst inps ctx base w s.
      w \<in> set (live (d_workers s)) \<Longrightarrow>
      work_left (worker_step E st tst inps ctx base w s) < work_left s"
  proof -
    fix E st tst inps ctx base w and s :: dstate
    assume "w \<in> set (live (d_workers s))"
    then have w: "w < length (d_workers s)" and nd: "d_workers s ! w \<noteq> WDone"
      by (auto simp: live_def)
    show "work_left (worker_step E st tst inps ctx base w s) < work_left s"
    proof (cases "d_workers s ! w")
      case WStart
      then show ?thesis
        using upd [OF w, of WCheck]
        by (simp add: worker_step_def work_left_def set_worker_def)
    next
      case WCheck
      then show ?thesis
        using upd [OF w, of WDone] upd [OF w, of WLock]
        by (simp add: worker_step_def work_left_def set_worker_def leave_def)
    next
      case WLock
      show ?thesis
      proof (cases "d_i s > UINT32_MAX \<or> unat (d_i s) \<ge> length inps")
        case True
        then show ?thesis
          using WLock upd [OF w, of WDone]
          by (simp add: worker_step_def work_left_def set_worker_def leave_def)
      next
        case False
        then have "\<not> UINT32_MAX < d_i s"
          by simp
        then have "d_i s \<le> UINT32_MAX"
          by (rule leI)
        then have "unat (d_i s) \<le> unat UINT32_MAX"
          by (simp add: word_le_nat_alt)
        then have le: "unat (d_i s) < 2 ^ 32"
          by (simp add: UINT32_MAX_def)
        then have "unat (d_i s) + unat (1 :: 64 word) < 2 ^ LENGTH(64)"
          by simp
        then have "unat (d_i s + 1) = unat (d_i s) + 1"
          by (simp add: unat_add_lem [THEN iffD1])
        then show ?thesis
          using False WLock le upd [OF w, of "WRun (ucast (d_i s))"]
          by (simp add: worker_step_def work_left_def set_worker_def)
      qed
    next
      case (WRun idx)
      then show ?thesis
        using upd [OF w, of WDone] upd [OF w, of WCheck]
        by (simp add: worker_step_def work_left_def set_worker_def leave_def Let_def
              split: option.splits)
    next
      case WDone
      with nd show ?thesis by simp
    qed
  qed
  fix E st tst inps ctx base and sched :: "sched_ev list" and s :: dstate
  {
    assume "sched = []" and l: "live (d_workers s) \<noteq> []"
    from l have "hd (live (d_workers s)) \<in> set (live (d_workers s))"
      by simp
    from step [OF this]
    show "((E, st, tst, inps, ctx, base, [],
            worker_step E st tst inps ctx base (hd (live (d_workers s))) s),
           (E, st, tst, inps, ctx, base, sched, s))
          \<in> measure (\<lambda>(E, st, tst, inps, ctx, base, sched, s). length sched + work_left s)"
      using \<open>sched = []\<close> by simp
  next
    fix x rest
    assume "sched = x # rest" and "x = Interrupt"
    then show "((E, st, tst, inps, ctx, base, rest, s\<lparr>d_interrupted := True\<rparr>),
           (E, st, tst, inps, ctx, base, sched, s))
          \<in> measure (\<lambda>(E, st, tst, inps, ctx, base, sched, s). length sched + work_left s)"
      by (simp add: work_left_def)
  next
    fix x rest
    assume "sched = x # rest"
    then show "((E, st, tst, inps, ctx, base, rest, s),
           (E, st, tst, inps, ctx, base, sched, s))
          \<in> measure (\<lambda>(E, st, tst, inps, ctx, base, sched, s). length sched + work_left s)"
      by simp
  next
    fix x rest
    assume "sched = x # rest"
    then show "((E, st, tst, inps, ctx, base, rest, s),
           (E, st, tst, inps, ctx, base, sched, s))
          \<in> measure (\<lambda>(E, st, tst, inps, ctx, base, sched, s). length sched + work_left s)"
      by simp
  next
    fix x rest k
    assume "sched = x # rest" and "x = Pick k" and l: "live (d_workers s) \<noteq> []"
    from l have "live (d_workers s) ! (k mod length (live (d_workers s))) \<in> set (live (d_workers s))"
      by simp
    from step [OF this]
    show "((E, st, tst, inps, ctx, base, rest,
            worker_step E st tst inps ctx base
              (live (d_workers s) ! (k mod length (live (d_workers s)))) s),
           (E, st, tst, inps, ctx, base, sched, s))
          \<in> measure (\<lambda>(E, st, tst, inps, ctx, base, sched, s). length sched + work_left s)"
      using \<open>sched = x # rest\<close> by (simp add: less_Suc_eq)
  }
qed

declare dispatch.simps [simp del]

section \<open>Runner::run\<close>

definition stage_bouncer :: "env \<Rightarrow> Settings \<Rightarrow> NettestContext \<Rightarrow> NettestContext" where
  "stage_bouncer E st ctx =
     (if \<not> no_bouncer st then
        (case query_bouncer E st of
           (res, cs, hs) \<Rightarrow> ctx\<lparr>collectors := cs, test_helpers := hs\<rparr>)
      else ctx)"

text \<open>
  The threads are created and none has counted itself in; both counters are at zero and
  the flag is as constructed.
\<close>

definition init_dstate :: "8 word \<Rightarrow> dstate" where
  "init_dstate p = \<lparr>d_i = 0, d_active = 0, d_interrupted = False,
                    d_workers = replicate (unat p) WStart,
                    d_events = [], d_claims = [], d_fault = None, d_main_left = False\<rparr>"

text \<open>
  The body of the \<open>do ... while (0)\<close>: the events, the prepared inputs and the state in
  which the dispatcher ended. It is left at once when the nettest needs input and has
  none. After the dispatcher the main thread goes on only when it has left its wait.
\<close>

definition stage_measure ::
  "env \<Rightarrow> Settings \<Rightarrow> string \<Rightarrow> NettestContext \<Rightarrow> string \<Rightarrow> sched_ev list \<Rightarrow>
   event list \<times> string list option \<times> dstate option" where
  "stage_measure E st test_start_time ctx base sched =
     (if nt_needs_input E \<and> inputs st = [] then ([], None, None)
      else
        (let inps = prepare_inputs E st;
             s = dispatch E st test_start_time inps ctx base sched
                   (init_dstate (choose_parallelism E st))
         in (d_events s
               @ (if d_fault s = None \<and> d_main_left s then
                    [progress_ev 0.9 ''measurement complete'']
                    @ stage_close_report E st ctx base
                    @ [progress_ev 1.0 ''report close'']
                  else []),
             Some inps, Some s)))"

definition end_ev :: "env \<Rightarrow> event" where
  "end_ev E =
     (''status.end'',
      JObject [(''failure'', JString []),
               (''downloaded_kb'', JFloat (real (unat (bytes_down E)) / 1024.0)),
               (''uploaded_kb'', JFloat (real (unat (bytes_up E)) / 1024.0))])"

text \<open>
  What a run leaves behind: the events, the context, the collector's base URL, the base
  URL that open_report was called with (if it was), the prepared inputs (if the
  measurements were run), the indices claimed with the worker that claimed each, the
  fault that ended the process (if any), whether a worker was left behind when the main
  thread went on, and the result: \<open>None\<close> when \<open>run\<close> does not return.
\<close>

record run_out =
  run_events :: "event list"
  run_ctx :: NettestContext
  run_collector_base_url :: string
  run_open_report_call :: "string option"
  run_inputs :: "string list option"
  run_claims :: "(nat \<times> 32 word) list"
  run_fault :: "fault option"
  run_workers_left :: bool
  run_rv :: "bool option"

text \<open>Whether the main thread comes out of the body of the \<open>do ... while (0)\<close>.\<close>

definition main_goes_on :: "dstate option \<Rightarrow> bool" where
  "main_goes_on ds = (case ds of None \<Rightarrow> True | Some s \<Rightarrow> d_fault s = None \<and> d_main_left s)"

definition run :: "env \<Rightarrow> Settings \<Rightarrow> sched_ev list \<Rightarrow> run_out" where
  "run E st sched =
     (let ev_queued = emit_ev ''status.queued'' (JObject []);
          ctx0 = NettestContext_empty;
          ev_started = emit_ev ''status.started'' (JObject []);
          ctx1 = stage_bouncer E st ctx0;
          ev_bouncer = [progress_ev 0.1 ''contact bouncer''];
          (ev_ip, ctx2) = stage_probe_ip E st ctx1;
          (ev_asn, ctx3) = stage_probe_asn E st ctx2;
          (ev_cc, ctx4) = stage_probe_cc E st ctx3;
          ev_geoip = [progress_ev 0.2 ''geoip lookup'', geoip_lookup_ev ctx4];
          (ev_resolver, ctx5) = stage_resolver E st ctx4;
          ev_resolver' = [progress_ev 0.3 ''resolver lookup'',
                          (''status.resolver_lookup'',
                           JObject [(''resolver_ip'', JString (resolver_ip ctx5))])];
          test_start_time = format_system_clock_now E Call_run;
          (ev_open, ctx6, base, opened) = stage_open_report E st test_start_time ctx5;
          ev_open' = [progress_ev 0.4 ''open report''];
          (ev_measure, inps, ds) = stage_measure E st test_start_time ctx6 base sched
      in \<lparr>run_events = ev_queued @ ev_started @ ev_bouncer @ ev_ip @ ev_asn @ ev_cc @ ev_geoip
                        @ ev_resolver @ ev_resolver' @ ev_open @ ev_open' @ ev_measure
                        @ (if main_goes_on ds then [end_ev E] else []),
          run_ctx = ctx6,
          run_collector_base_url = base,
          run_open_report_call = opened,
          run_inputs = inps,
          run_claims = (case ds of None \<Rightarrow> [] | Some s \<Rightarrow> d_claims s),
          run_fault = (case ds of None \<Rightarrow> None | Some s \<Rightarrow> d_fault s),
          run_workers_left = (case ds of None \<Rightarrow> False | Some s \<Rightarrow> live (d_workers s) \<noteq> []),
          run_rv = (if main_goes_on ds then Some True else None)\<rparr>)"

section \<open>Reading a trace\<close>

text \<open>The percentages of the status.progress events of a trace, in order.\<close>

fun percentage_of :: "event \<Rightarrow> real option" where
  "percentage_of (k, v) =
     (if k = ''status.progress''
      then (case json_get v ''percentage'' of Some (JFloat p) \<Rightarrow> Some p | _ \<Rightarrow> None)
      else None)"

definition percentages :: "event list \<Rightarrow> real list" where
  "percentages evs = List.map_filter percentage_of evs"

text \<open>The values of the events of a trace that have a given key.\<close>

definition values_of :: "string \<Rightarrow> event list \<Rightarrow> json list" where
  "values_of k evs = map snd (filter (\<lambda>e. fst e = k) evs)"


text \<open>The keys of the events that run_with_index32 emits.\<close>

definition measurement_keys :: "string set" where
  "measurement_keys = {''status.measurement_start'', ''failure.measurement'',
     ''failure.measurement_submission'', ''status.measurement_submission'', ''measurement'',
     ''status.measurement_done''}"

text \<open>The context as it stands when status.geoip_lookup is emitted, and after the resolver stage.\<close>

definition ctx_geoip :: "env \<Rightarrow> Settings \<Rightarrow> NettestContext" where
  "ctx_geoip E st =
     snd (stage_probe_cc E st (snd (stage_probe_asn E st (snd (stage_probe_ip E st
       (stage_bouncer E st NettestContext_empty))))))"

definition ctx_resolver :: "env \<Rightarrow> Settings \<Rightarrow> NettestContext" where
  "ctx_resolver E st = snd (stage_resolver E st (ctx_geoip E st))"

section \<open>Parsing the settings\<close>

subsection \<open>Reading a value of a C++ type out of a JSON value\<close>

text \<open>
  \<open>entry.get<Type>()\<close> for the types that parse_settings reads; \<open>None\<close> where the
  conversion throws. A bool is read from a boolean only, a double from a number only.
\<close>

fun get_bool :: "json \<Rightarrow> bool option" where
  "get_bool (JBool b) = Some b"
| "get_bool j = None"

fun get_double :: "json \<Rightarrow> real option" where
  "get_double (JInt n) = Some (real_of_int n)"
| "get_double (JFloat x) = Some x"
| "get_double j = None"

fun get_string :: "json \<Rightarrow> string option" where
  "get_string (JString s) = Some s"
| "get_string j = None"

fun get_strings :: "json list \<Rightarrow> string list option" where
  "get_strings [] = Some []"
| "get_strings (j # js) =
     (case get_string j of
        None \<Rightarrow> None
      | Some s \<Rightarrow> (case get_strings js of None \<Rightarrow> None | Some ss \<Rightarrow> Some (s # ss)))"

fun get_vector :: "json \<Rightarrow> string list option" where
  "get_vector (JArray js) = get_strings js"
| "get_vector j = None"

fun get_pairs :: "(string \<times> json) list \<Rightarrow> (string \<times> string) list option" where
  "get_pairs [] = Some []"
| "get_pairs ((k, j) # kvs) =
     (case get_string j of
        None \<Rightarrow> None
      | Some s \<Rightarrow> (case get_pairs kvs of None \<Rightarrow> None | Some m \<Rightarrow> Some ((k, s) # m)))"

fun get_map :: "json \<Rightarrow> (string \<times> string) list option" where
  "get_map (JObject kvs) = get_pairs kvs"
| "get_map j = None"

fun type_name :: "json \<Rightarrow> string" where
  "type_name JNull = ''null''"
| "type_name (JBool b) = ''boolean''"
| "type_name (JString s) = ''string''"
| "type_name (JArray js) = ''array''"
| "type_name (JObject kvs) = ''object''"
| "type_name j = ''number''"

text \<open>
  A JSON pointer is a string of reference tokens, each after a slash. The pointers of
  parse_settings are constants without escapes.
\<close>

fun split_on :: "char \<Rightarrow> string \<Rightarrow> string list" where
  "split_on sep [] = ['''']"
| "split_on sep (c # cs) =
     (if c = sep then [] # split_on sep cs
      else (case split_on sep cs of [] \<Rightarrow> [c # []] | t # ts \<Rightarrow> (c # t) # ts))"

definition json_pointer :: "string \<Rightarrow> string list" where
  "json_pointer ptr_string = (case ptr_string of [] \<Rightarrow> [] | c # cs \<Rightarrow> split_on (CHR ''/'') cs)"

text \<open>
  json_maybe_get first resets the variable to the default of its type. A missing entry
  is no error and leaves that default; an entry of the wrong type is an error.
\<close>

definition json_maybe_get ::
  "(json \<Rightarrow> 'a option) \<Rightarrow> 'a \<Rightarrow> string \<Rightarrow> json \<Rightarrow> string \<Rightarrow> string + 'a" where
  "json_maybe_get get dflt cpp_type doc ptr_string =
     (case json_path doc (json_pointer ptr_string) of
        None \<Rightarrow> Inr dflt
      | Some entry \<Rightarrow>
          (case get entry of
             None \<Rightarrow>
               Inl (''invalid_settings_error: cannot convert variable accessed using ''
                    @ [CHR 0x27] @ ptr_string @ [CHR 0x27] @ '' as JSON pointer from JSON type ''
                    @ [CHR 0x27] @ type_name entry @ [CHR 0x27] @ '' to C++ type ''
                    @ [CHR 0x27] @ cpp_type @ [CHR 0x27])
           | Some v \<Rightarrow> Inr v))"

definition out_of_range_error_gen :: "string \<Rightarrow> nat \<Rightarrow> nat \<Rightarrow> string" where
  "out_of_range_error_gen ptr minimum maximum =
     ''invalid_settings_error: cannot validate variable accessed using ''
     @ [CHR 0x27] @ ptr @ [CHR 0x27] @ '' because the value is out of range (The ''
     @ ''minimum acceptable value is '' @ to_string minimum @ '' while the maximum ''
     @ ''acceptable value is '' @ to_string maximum @ '')''"

definition format_error_gen :: "string \<Rightarrow> string" where
  "format_error_gen ptr =
     ''invalid_settings_error: cannot validate variable accessed using ''
     @ [CHR 0x27] @ ptr @ [CHR 0x27] @ '' because the variable should be an integer ''
     @ ''but you actually provided a floating point number''"

definition bool_warning :: "string \<Rightarrow> string" where
  "bool_warning path =
     ''Found number variable at '' @ [CHR 0x27] @ path @ [CHR 0x27] @ '' and ''
     @ ''treating it as boolean. This is for backward ''
     @ ''compatibility with MK <= 0.9.0-alpha.9 where we ''
     @ ''did not allow boolean variables. Change your ''
     @ ''code to use boolean to get rid of this warning. ''
     @ ''Be aware that we will remove this backward ''
     @ ''compatibility hack in the future, so change your ''
     @ ''code today to avoid your app breaking sometime ''
     @ ''in the future. Please!''"

subsection \<open>The macros\<close>

text \<open>
  parse_settings is a sequence of macro calls, each with a pointer and the address of a
  field. A call is modelled by the macro (with the assignment to the field), and the
  sequence by the list of the calls in their order. A call takes the settings and the
  warning as they stand and answers the error message, or the two as it leaves them.
  The block that reads the log level is a call of its own kind.
\<close>

datatype macro =
    MAYBE_GET_map "(string \<times> string) list \<Rightarrow> Settings \<Rightarrow> Settings"
  | MAYBE_GET_vector "string list \<Rightarrow> Settings \<Rightarrow> Settings"
  | MAYBE_GET_string "string \<Rightarrow> Settings \<Rightarrow> Settings"
  | MAYBE_GET_BOOL "bool \<Rightarrow> Settings \<Rightarrow> Settings"
  | MAYBE_GET_UINT8 "8 word \<Rightarrow> Settings \<Rightarrow> Settings"
  | MAYBE_GET_UINT16 "16 word \<Rightarrow> Settings \<Rightarrow> Settings"
  | GET_LOG_LEVEL

definition maybe_get_uint ::
  "nat \<Rightarrow> json \<Rightarrow> string \<Rightarrow> string + nat" where
  "maybe_get_uint maximum doc path =
     (case json_maybe_get get_double 0 ''double'' doc path of
        Inl e \<Rightarrow> Inl e
      | Inr scratch \<Rightarrow>
          (if of_int \<lfloor>scratch\<rfloor> \<noteq> scratch then Inl (format_error_gen path)
           else if scratch < 0 \<or> scratch > real maximum then Inl (out_of_range_error_gen path 0 maximum)
           else Inr (nat \<lfloor>scratch\<rfloor>)))"

definition log_level_of :: "string \<Rightarrow> LogLevel option" where
  "log_level_of s =
     (if s = ''QUIET'' then Some log_quiet
      else if s = ''ERR'' then Some log_err
      else if s = ''WARNING'' then Some log_warning
      else if s = ''INFO'' then Some log_info
      else if s = ''DEBUG'' then Some log_debug
      else if s = ''DEBUG2'' then Some log_debug2
      else None)"

fun exec_macro :: "macro \<Rightarrow> string \<Rightarrow> json \<Rightarrow> Settings \<times> string \<Rightarrow> string + Settings \<times> string" where
  "exec_macro (MAYBE_GET_map assign) path doc (s, warn) =
     (case json_maybe_get get_map [] ''std::map<std::string, std::string>'' doc path of
        Inl e \<Rightarrow> Inl e | Inr v \<Rightarrow> Inr (assign v s, warn))"
| "exec_macro (MAYBE_GET_vector assign) path doc (s, warn) =
     (case json_maybe_get get_vector [] ''std::vector<std::string>'' doc path of
        Inl e \<Rightarrow> Inl e | Inr v \<Rightarrow> Inr (assign v s, warn))"
| "exec_macro (MAYBE_GET_string assign) path doc (s, warn) =
     (case json_maybe_get get_string [] ''std::string'' doc path of
        Inl e \<Rightarrow> Inl e | Inr v \<Rightarrow> Inr (assign v s, warn))"
| "exec_macro (MAYBE_GET_BOOL assign) path doc (s, warn) =
     (case json_maybe_get get_bool False ''bool'' doc path of
        Inr v \<Rightarrow> Inr (assign v s, warn)
      | Inl e \<Rightarrow>
          (case json_maybe_get get_double 0 ''double'' doc path of
             Inl errx \<Rightarrow> Inl e
           | Inr scratch \<Rightarrow> Inr (assign (scratch \<noteq> 0) s, bool_warning path)))"
| "exec_macro (MAYBE_GET_UINT8 assign) path doc (s, warn) =
     (case maybe_get_uint 255 doc path of
        Inl e \<Rightarrow> Inl e | Inr n \<Rightarrow> Inr (assign (of_nat n) s, warn))"
| "exec_macro (MAYBE_GET_UINT16 assign) path doc (s, warn) =
     (case maybe_get_uint 65535 doc path of
        Inl e \<Rightarrow> Inl e | Inr n \<Rightarrow> Inr (assign (of_nat n) s, warn))"
| "exec_macro GET_LOG_LEVEL path doc (s, warn) =
     (case json_maybe_get get_string [] ''std::string'' doc path of
        Inl e \<Rightarrow> Inl e
      | Inr str \<Rightarrow>
          (if str = [] then Inr (s, warn)
           else (case log_level_of str of
                   Some l \<Rightarrow> Inr (s\<lparr>log_level := l\<rparr>, warn)
                 | None \<Rightarrow>
                     Inl (''invalid_settings_error: cannot convert variable accessed using ''
                          @ [CHR 0x27] @ ''/log_level'' @ [CHR 0x27]
                          @ '' as JSON pointer to a C++ enumeration containing ''
                          @ ''one of: QUIET, ERR, WARNING, INFO, DEBUG, DEBUG2''))))"

text \<open>The calls of parse_settings, in the order of the source.\<close>

definition settings_table :: "(string \<times> macro) list" where
  "settings_table =
     [(''/annotations'', MAYBE_GET_map (\<lambda>v s. s\<lparr>annotations := v\<rparr>)),
      (''/inputs'', MAYBE_GET_vector (\<lambda>v s. s\<lparr>inputs := v\<rparr>)),
      (''/input_filepaths'', MAYBE_GET_vector (\<lambda>v s. s\<lparr>input_filepaths := v\<rparr>)),
      (''/log_filepath'', MAYBE_GET_string (\<lambda>v s. s\<lparr>log_filepath := v\<rparr>)),
      (''/log_level'', GET_LOG_LEVEL),
      (''/name'', MAYBE_GET_string (\<lambda>v s. s\<lparr>name := v\<rparr>)),
      (''/output_filepath'', MAYBE_GET_string (\<lambda>v s. s\<lparr>output_filepath := v\<rparr>)),
      (''/options/all_endpoints'', MAYBE_GET_BOOL (\<lambda>v s. s\<lparr>all_endpoints := v\<rparr>)),
      (''/options/bouncer_base_url'', MAYBE_GET_string (\<lambda>v s. s\<lparr>bouncer_base_url := v\<rparr>)),
      (''/options/ca_bundle_path'', MAYBE_GET_string (\<lambda>v s. s\<lparr>ca_bundle_path := v\<rparr>)),
      (''/options/collector_base_url'', MAYBE_GET_string (\<lambda>v s. s\<lparr>collector_base_url := v\<rparr>)),
      (''/options/engine_name'', MAYBE_GET_string (\<lambda>v s. s\<lparr>engine_name := v\<rparr>)),
      (''/options/engine_version'', MAYBE_GET_string (\<lambda>v s. s\<lparr>engine_version := v\<rparr>)),
      (''/options/engine_version_full'', MAYBE_GET_string (\<lambda>v s. s\<lparr>engine_version_full := v\<rparr>)),
      (''/options/geoip_asn_path'', MAYBE_GET_string (\<lambda>v s. s\<lparr>geoip_asn_path := v\<rparr>)),
      (''/options/geoip_country_path'', MAYBE_GET_string (\<lambda>v s. s\<lparr>geoip_country_path := v\<rparr>)),
      (''/options/max_runtime'', MAYBE_GET_UINT16 (\<lambda>v s. s\<lparr>max_runtime := v\<rparr>)),
      (''/options/no_asn_lookup'', MAYBE_GET_BOOL (\<lambda>v s. s\<lparr>no_asn_lookup := v\<rparr>)),
      (''/options/no_bouncer'', MAYBE_GET_BOOL (\<lambda>v s. s\<lparr>no_bouncer := v\<rparr>)),
      (''/options/no_cc_lookup'', MAYBE_GET_BOOL (\<lambda>v s. s\<lparr>no_cc_lookup := v\<rparr>)),
      (''/options/no_collector'', MAYBE_GET_BOOL (\<lambda>v s. s\<lparr>no_collector := v\<rparr>)),
      (''/options/no_file_report'', MAYBE_GET_BOOL (\<lambda>v s. s\<lparr>no_file_report := v\<rparr>)),
      (''/options/no_ip_lookup'', MAYBE_GET_BOOL (\<lambda>v s. s\<lparr>no_ip_lookup := v\<rparr>)),
      (''/options/no_resolver_lookup'', MAYBE_GET_BOOL (\<lambda>v s. s\<lparr>no_resolver_lookup := v\<rparr>)),
      (''/options/parallelism'', MAYBE_GET_UINT8 (\<lambda>v s. s\<lparr>parallelism := v\<rparr>)),
      (''/options/platform'', MAYBE_GET_string (\<lambda>v s. s\<lparr>platform := v\<rparr>)),
      (''/options/port'', MAYBE_GET_UINT16 (\<lambda>v s. s\<lparr>port := v\<rparr>)),
      (''/options/probe_ip'', MAYBE_GET_string (\<lambda>v s. s\<lparr>probe_ip := v\<rparr>)),
      (''/options/probe_asn'', MAYBE_GET_string (\<lambda>v s. s\<lparr>probe_asn := v\<rparr>)),
      (''/options/probe_network_name'', MAYBE_GET_string (\<lambda>v s. s\<lparr>probe_network_name := v\<rparr>)),
      (''/options/probe_cc'', MAYBE_GET_string (\<lambda>v s. s\<lparr>probe_cc := v\<rparr>)),
      (''/options/randomize_input'', MAYBE_GET_BOOL (\<lambda>v s. s\<lparr>randomize_input := v\<rparr>)),
      (''/options/save_real_probe_asn'', MAYBE_GET_BOOL (\<lambda>v s. s\<lparr>save_real_probe_asn := v\<rparr>)),
      (''/options/save_real_probe_ip'', MAYBE_GET_BOOL (\<lambda>v s. s\<lparr>save_real_probe_ip := v\<rparr>)),
      (''/options/save_real_probe_cc'', MAYBE_GET_BOOL (\<lambda>v s. s\<lparr>save_real_probe_cc := v\<rparr>)),
      (''/options/save_real_resolver_ip'', MAYBE_GET_BOOL (\<lambda>v s. s\<lparr>save_real_resolver_ip := v\<rparr>)),
      (''/options/server'', MAYBE_GET_string (\<lambda>v s. s\<lparr>server := v\<rparr>)),
      (''/options/software_name'', MAYBE_GET_string (\<lambda>v s. s\<lparr>software_name := v\<rparr>)),
      (''/options/software_version'', MAYBE_GET_string (\<lambda>v s. s\<lparr>software_version := v\<rparr>))]"

text \<open>The calls one after the other: the first error ends the sequence.\<close>

fun exec_macros ::
  "(string \<times> macro) list \<Rightarrow> json \<Rightarrow> Settings \<times> string \<Rightarrow> string + Settings \<times> string" where
  "exec_macros [] doc x = Inr x"
| "exec_macros ((path, m) # rest) doc x =
     (case exec_macro m path doc x of Inl e \<Rightarrow> Inl e | Inr x' \<Rightarrow> exec_macros rest doc x')"

fun is_object :: "json \<Rightarrow> bool" where
  "is_object (JObject kvs) = True"
| "is_object j = False"

fun is_string :: "json \<Rightarrow> bool" where
  "is_string (JString s) = True"
| "is_string j = False"

text \<open>
  The checks on the shape of the document that come before the macros: the error
  message of the first one that fails.
\<close>

definition check_document :: "json \<Rightarrow> string option" where
  "check_document doc =
     (if \<not> is_object doc then Some ''invalid_settings_error: JSON document is not an object''
      else case json_get doc ''options'' of
        None \<Rightarrow> Some (''invalid_settings_error: missing '' @ [CHR 0x27] @ ''options'' @ [CHR 0x27] @ '' entry'')
      | Some opts \<Rightarrow>
          (if \<not> is_object opts
           then Some (''invalid_settings_error: '' @ [CHR 0x27] @ ''options'' @ [CHR 0x27] @ '' entry is not an object'')
           else case json_get doc ''name'' of
             None \<Rightarrow> Some (''invalid_settings_error: missing '' @ [CHR 0x27] @ ''name'' @ [CHR 0x27] @ '' entry'')
           | Some nm \<Rightarrow>
               (if \<not> is_string nm
                then Some (''invalid_settings_error: '' @ [CHR 0x27] @ ''name'' @ [CHR 0x27] @ '' entry is not a string'')
                else None)))"

text \<open>
  parse_settings takes the string, and the settings and the warning as the caller passes
  them. It answers the error message when it returns false, and the settings and the
  warning when it returns true.
\<close>

definition parse_settings ::
  "env \<Rightarrow> string \<Rightarrow> Settings \<Rightarrow> string \<Rightarrow> string + Settings \<times> string" where
  "parse_settings E str settings warn =
     (case json_parse E str of
        Inl what \<Rightarrow> Inl ''json_parse_error''
      | Inr doc \<Rightarrow>
          (case check_document doc of
             Some e \<Rightarrow> Inl e
           | None \<Rightarrow> exec_macros settings_table doc (settings, warn)))"

text \<open>The boolean options, each with the field it is stored in.\<close>

definition bool_options :: "(string \<times> (Settings \<Rightarrow> bool)) list" where
  "bool_options =
     [(''/options/all_endpoints'', all_endpoints),
      (''/options/no_asn_lookup'', no_asn_lookup),
      (''/options/no_bouncer'', no_bouncer),
      (''/options/no_cc_lookup'', no_cc_lookup),
      (''/options/no_collector'', no_collector),
      (''/options/no_file_report'', no_file_report),
      (''/options/no_ip_lookup'', no_ip_lookup),
      (''/options/no_resolver_lookup'', no_resolver_lookup),
      (''/options/randomize_input'', randomize_input),
      (''/options/save_real_probe_asn'', save_real_probe_asn),
      (''/options/save_real_probe_ip'', save_real_probe_ip),
      (''/options/save_real_probe_cc'', save_real_probe_cc),
      (''/options/save_real_resolver_ip'', save_real_resolver_ip)]"

text \<open>Whether a call is one of MAYBE_GET_BOOL, and whether a document holds a number at a pointer.\<close>

fun is_bool_macro :: "macro \<Rightarrow> bool" where
  "is_bool_macro (MAYBE_GET_BOOL assign) = True"
| "is_bool_macro m = False"

definition holds_number :: "json \<Rightarrow> string \<Rightarrow> bool" where
  "holds_number doc path =
     (case json_path doc (json_pointer path) of
        None \<Rightarrow> False
      | Some entry \<Rightarrow> get_double entry \<noteq> None)"

text \<open>Whether a call accepts what the document holds at its pointer.\<close>

definition accepts :: "json \<Rightarrow> string \<times> macro \<Rightarrow> bool" where
  "accepts doc call =
     (case exec_macro (snd call) (fst call) doc (Settings_default, []) of
        Inl e \<Rightarrow> False
      | Inr x \<Rightarrow> True)"

text \<open>A call keeps a field when the field is after the call what it was before.\<close>

definition keeps :: "(Settings \<Rightarrow> 'a) \<Rightarrow> string \<times> macro \<Rightarrow> bool" where
  "keeps get call =
     (\<forall>doc s w s' w'. exec_macro (snd call) (fst call) doc (s, w) = Inr (s', w') \<longrightarrow> get s' = get s)"

section \<open>A concrete environment\<close>

text \<open>
  A nettest that fails and tries to set \<open>client_resolver\<close> itself, a transport that is
  down, a serialiser that works, and clocks that stand still.
\<close>

definition example_env :: env where
  "example_env = \<lparr>LIBNETTEST2_PLATFORM = ''linux'', nlohmann_json_version = ''3.1.2'',
     nt_name = ''dummy'', nt_version = ''0.0.1'', nt_test_helpers = [], nt_needs_input = False,
     nt_run = (\<lambda>i st ctx inp. (False, JObject [(''client_resolver'', JString ''8.8.8.8'')])),
     dump = (\<lambda>j. Inr ''{}''), json_parse = (\<lambda>s. Inl ''parse error''),
     curlx_post_json = (\<lambda>c u b. Inl ErrContext_default),
     curlx_get = (\<lambda>u. Inl ErrContext_default),
     steady_elapsed = (\<lambda>i. 0), nettest_elapsed = (\<lambda>i. 2),
     date_format_now = (\<lambda>c. ''2018-11-01 12:00:00.000''),
     random_device = (\<lambda>i. (0, 0)),
     bouncer_reply = (\<lambda>s. (Inl ''parse error'', [], [])),
     json_what = (\<lambda>j. ''key not found''),
     mmdb_asn = (\<lambda>db ip. Inl ErrContext_default),
     mmdb_cc = (\<lambda>db ip. Inl ErrContext_default),
     getaddrinfo = Inl (-2, ''Name or service not known''),
     mt19937 = (\<lambda>k. 0),
     bytes_down = 0, bytes_up = 0\<rparr>"

definition example_ctx :: NettestContext where
  "example_ctx = \<lparr>collectors = [], ctx_probe_asn = ''AS30722'', ctx_probe_cc = ''IT'',
     ctx_probe_ip = ''93.147.252.33'', ctx_probe_network_name = ''Vodafone Italia S.p.A.'',
     report_id = '''', resolver_ip = ''91.80.37.85'', test_helpers = []\<rparr>"

text \<open>A nettest that takes input, and settings with three inputs, kept in their order.\<close>

definition example_env_input :: env where
  "example_env_input = example_env\<lparr>nt_needs_input := True\<rparr>"

definition example_settings_inputs :: Settings where
  "example_settings_inputs = Settings_default\<lparr>inputs := [''a'', ''b'', ''c''], randomize_input := False\<rparr>"

text \<open>
  A nettest that takes input, with a transport that works: the bouncer answers with one
  collector of type https, and the collector answers the request to open a report with
  a report identifier.
\<close>

definition example_env_report :: env where
  "example_env_report = example_env_input\<lparr>
     curlx_post_json := (\<lambda>c u b. Inr ''{}''),
     bouncer_reply := (\<lambda>s. (Inr (), [\<lparr>ep_type = endpoint_type_https,
                                       address = ''https://b.collector.ooni.io'', front = []\<rparr>], [])),
     json_parse := (\<lambda>s. Inr (JObject [(''report_id'', JString ''RID7'')]))\<rparr>"

text \<open>The default settings with a collector configured.\<close>

definition example_settings_collector :: Settings where
  "example_settings_collector = Settings_default\<lparr>collector_base_url := ''https://b.collector.ooni.io''\<rparr>"

text \<open>
  Settings as apps older than MK 0.9.0-alpha.9 wrote them, with numbers for two of the
  boolean options, and a parser that reads them.
\<close>

definition example_settings_doc :: json where
  "example_settings_doc =
     JObject [(''name'', JString ''dummy''),
              (''options'', JObject [(''no_bouncer'', JInt 1), (''no_collector'', JFloat 0)])]"

definition example_env_settings :: env where
  "example_env_settings = example_env\<lparr>json_parse := (\<lambda>s. Inr example_settings_doc)\<rparr>"

text \<open>Settings with a number for a boolean option and a port that no 16-bit integer holds.\<close>

definition example_settings_doc_port :: json where
  "example_settings_doc_port =
     JObject [(''name'', JString ''dummy''),
              (''options'', JObject [(''no_bouncer'', JInt 1), (''port'', JInt 70000)])]"

definition example_env_settings_port :: env where
  "example_env_settings_port = example_env\<lparr>json_parse := (\<lambda>s. Inr example_settings_doc_port)\<rparr>"

section \<open>The measurement record\<close>

lemma measurement_after_None:
  "\<not> is_null_or_object tk \<Longrightarrow> measurement_after E st ctx i m tk = None"
  by (cases tk) (simp_all add: measurement_after_def)

lemma measurement_after_Some:
  assumes "is_null_or_object tk"
  shows "\<exists>m'. measurement_after E st ctx i m tk = Some m'
     \<and> json_path m' [''test_keys'', ''client_resolver'']
         = Some (JString (if save_real_resolver_ip st then resolver_ip ctx else []))
     \<and> (\<forall>k. k \<noteq> ''test_keys'' \<and> k \<noteq> ''test_runtime'' \<longrightarrow> json_get m' k = map_of m k)"
  using assms by (cases tk) (simp_all add: measurement_after_def update_conv')

text \<open>
  A call within the runtime and inside the inputs returns true when the nettest left null
  or an object in its test keys, and ends the process otherwise.
\<close>

lemma run_with_index32_returns:
  assumes "steady_elapsed E i < real (unat (max_runtime st)) * 0.9" and "unat i < length inps"
    and "is_null_or_object (snd (nt_run E i st ctx (inps ! unat i)))"
  shows "rwi_fault (run_with_index32 E st tst inps ctx base i) = None"
    and "rwi_rv (run_with_index32 E st tst inps ctx base i)"
    and "rwi_measurement (run_with_index32 E st tst inps ctx base i) =
           measurement_after E st ctx i (measurement_before E st tst ctx i (inps ! unat i))
             (snd (nt_run E i st ctx (inps ! unat i)))"
proof -
  from measurement_after_Some [OF assms(3)] obtain m' where
    "measurement_after E st ctx i (measurement_before E st tst ctx i (inps ! unat i))
       (snd (nt_run E i st ctx (inps ! unat i))) = Some m'"
    by blast
  then show "rwi_fault (run_with_index32 E st tst inps ctx base i) = None"
    and "rwi_rv (run_with_index32 E st tst inps ctx base i)"
    and "rwi_measurement (run_with_index32 E st tst inps ctx base i) =
           measurement_after E st ctx i (measurement_before E st tst ctx i (inps ! unat i))
             (snd (nt_run E i st ctx (inps ! unat i)))"
    using assms(1,2) by (simp_all add: run_with_index32_def Let_def split_beta)
qed

lemma run_with_index32_terminated:
  assumes "steady_elapsed E i < real (unat (max_runtime st)) * 0.9" and "unat i < length inps"
    and "\<not> is_null_or_object (snd (nt_run E i st ctx (inps ! unat i)))"
  shows "rwi_fault (run_with_index32 E st tst inps ctx base i) = Some Terminated"
    and "rwi_measurement (run_with_index32 E st tst inps ctx base i) = None"
  using assms measurement_after_None [OF assms(3)]
  by (simp_all add: run_with_index32_def Let_def split_beta)

lemma record_field_top:
  assumes "steady_elapsed E i < real (unat (max_runtime st)) * 0.9" and "unat i < length inps"
    and "k \<noteq> ''test_keys''" and "k \<noteq> ''test_runtime''"
  shows "record_field (run_with_index32 E st tst inps ctx base i) [k]
     = (if is_null_or_object (snd (nt_run E i st ctx (inps ! unat i)))
        then map_of (measurement_before E st tst ctx i (inps ! unat i)) k else None)"
proof (cases "is_null_or_object (snd (nt_run E i st ctx (inps ! unat i)))")
  case True
  from measurement_after_Some [OF True] obtain m' where
    "measurement_after E st ctx i (measurement_before E st tst ctx i (inps ! unat i))
       (snd (nt_run E i st ctx (inps ! unat i))) = Some m'"
    "json_get m' k = map_of (measurement_before E st tst ctx i (inps ! unat i)) k"
    using assms(3,4) by blast
  then show ?thesis
    using True by (simp add: record_field_def run_with_index32_returns(3) [OF assms(1,2) True]
                      split: option.splits)
next
  case False
  then show ?thesis
    by (simp add: record_field_def run_with_index32_terminated(2) [OF assms(1,2) False])
qed

text \<open>
  C3. Every record that run_with_index32 builds lacks the members \<open>software_name\<close> and
  \<open>software_version\<close>: the code stores the two settings under the misspelt keys
  \<open>sotfware_name\<close> and \<open>sotfware_version\<close>. The statement evaluates the record of the
  first input of a run with the default settings.
\<close>

theorem C3_software_name_misspelt:
  "record_field (run_with_index32 example_env Settings_default ''2018-11-01 12:00:00'' ['''']
       example_ctx [] 0) [''software_name''] = None
 \<and> record_field (run_with_index32 example_env Settings_default ''2018-11-01 12:00:00'' ['''']
       example_ctx [] 0) [''sotfware_name''] = Some (JString (software_name Settings_default))
 \<and> record_field (run_with_index32 example_env Settings_default ''2018-11-01 12:00:00'' ['''']
       example_ctx [] 0) [''software_version''] = None
 \<and> record_field (run_with_index32 example_env Settings_default ''2018-11-01 12:00:00'' ['''']
       example_ctx [] 0) [''sotfware_version''] = Some (JString (software_version Settings_default))"
proof -
  have a: "steady_elapsed example_env 0 < real (unat (max_runtime Settings_default)) * 0.9"
    by (simp add: example_env_def Settings_default_def)
  have b: "unat (0 :: 32 word) < length ['''']"
    by simp
  have c: "is_null_or_object (snd (nt_run example_env 0 Settings_default example_ctx ([''''] ! unat (0 :: 32 word))))"
    by (simp add: example_env_def)
  show ?thesis
    using c by (simp add: record_field_top [OF a b] measurement_before_def)
qed

text \<open>
  C6. In the record of every measurement, \<open>probe_ip\<close> is the context's probe IP when
  \<open>save_real_probe_ip\<close> is set and the empty string otherwise, and likewise \<open>probe_asn\<close>
  under \<open>save_real_probe_asn\<close> and \<open>probe_cc\<close> under \<open>save_real_probe_cc\<close>. A call within the
  runtime and inside the inputs builds a record unless the nettest left in its test keys
  a value that is neither null nor an object, on which the process ends with no record.
\<close>

theorem C6_probe_fields_gated:
  assumes "steady_elapsed E i < real (unat (max_runtime st)) * 0.9" and "unat i < length inps"
  shows "record_field (run_with_index32 E st tst inps ctx base i) [''probe_ip'']
           = (if is_null_or_object (snd (nt_run E i st ctx (inps ! unat i)))
              then Some (JString (if save_real_probe_ip st then ctx_probe_ip ctx else []))
              else None)
       \<and> record_field (run_with_index32 E st tst inps ctx base i) [''probe_asn'']
           = (if is_null_or_object (snd (nt_run E i st ctx (inps ! unat i)))
              then Some (JString (if save_real_probe_asn st then ctx_probe_asn ctx else []))
              else None)
       \<and> record_field (run_with_index32 E st tst inps ctx base i) [''probe_cc'']
           = (if is_null_or_object (snd (nt_run E i st ctx (inps ! unat i)))
              then Some (JString (if save_real_probe_cc st then ctx_probe_cc ctx else []))
              else None)"
  by (simp add: record_field_top [OF assms] measurement_before_def)

theorem C6_probe_fields_gated_witness:
  "steady_elapsed example_env 0 < real (unat (max_runtime Settings_default)) * 0.9
 \<and> unat (0 :: 32 word) < length ['''']
 \<and> record_field (run_with_index32 example_env Settings_default ''2018-11-01 12:00:00'' ['''']
       example_ctx [] 0) [''probe_ip''] = Some (JString [])
 \<and> record_field (run_with_index32 example_env Settings_default ''2018-11-01 12:00:00'' ['''']
       example_ctx [] 0) [''probe_asn''] = Some (JString ''AS30722'')
 \<and> record_field (run_with_index32 example_env Settings_default ''2018-11-01 12:00:00'' ['''']
       example_ctx [] 0) [''probe_cc''] = Some (JString ''IT'')"
proof -
  have a: "steady_elapsed example_env 0 < real (unat (max_runtime Settings_default)) * 0.9"
    by (simp add: example_env_def Settings_default_def)
  have b: "unat (0 :: 32 word) < length ['''']"
    by simp
  have c: "is_null_or_object (snd (nt_run example_env 0 Settings_default example_ctx ([''''] ! unat (0 :: 32 word))))"
    by (simp add: example_env_def)
  show ?thesis
    using a b c C6_probe_fields_gated [OF a b, of "''2018-11-01 12:00:00''" example_ctx "[]"]
    by (simp add: Settings_default_def example_ctx_def)
qed

lemma rwi_submitted_is_dump:
  "rwi_submitted (run_with_index32 E st tst inps ctx base i) = Some s \<Longrightarrow>
   map_option (dump E) (rwi_measurement (run_with_index32 E st tst inps ctx base i)) = Some (Inr s)"
  by (auto simp: run_with_index32_def submit_measurement_def Let_def
           split: if_splits prod.splits sum.splits option.splits)

text \<open>
  C5. In the record of every measurement, \<open>test_keys.client_resolver\<close> is the context's
  resolver IP when \<open>save_real_resolver_ip\<close> is set and the empty string otherwise,
  whatever the nettest stored in its test keys; and a string handed to update_report is
  the serialisation of that record. A call within the runtime and inside the inputs
  builds a record unless the nettest left in its test keys a value that is neither null
  nor an object, on which the process ends with no record and nothing submitted.
\<close>

theorem C5_client_resolver_injected:
  assumes "steady_elapsed E i < real (unat (max_runtime st)) * 0.9" and "unat i < length inps"
  shows "record_field (run_with_index32 E st tst inps ctx base i) [''test_keys'', ''client_resolver'']
           = (if is_null_or_object (snd (nt_run E i st ctx (inps ! unat i)))
              then Some (JString (if save_real_resolver_ip st then resolver_ip ctx else []))
              else None)
       \<and> rwi_fault (run_with_index32 E st tst inps ctx base i)
           = (if is_null_or_object (snd (nt_run E i st ctx (inps ! unat i)))
              then None else Some Terminated)
       \<and> (case rwi_submitted (run_with_index32 E st tst inps ctx base i) of
            None \<Rightarrow> True
          | Some s \<Rightarrow>
              map_option (dump E) (rwi_measurement (run_with_index32 E st tst inps ctx base i))
                = Some (Inr s))"
proof -
  let ?r = "run_with_index32 E st tst inps ctx base i"
  let ?tk = "snd (nt_run E i st ctx (inps ! unat i))"
  have "record_field ?r [''test_keys'', ''client_resolver'']
          = (if is_null_or_object ?tk
             then Some (JString (if save_real_resolver_ip st then resolver_ip ctx else []))
             else None)"
  proof (cases "is_null_or_object ?tk")
    case True
    from measurement_after_Some [OF True] obtain m' where
      "measurement_after E st ctx i (measurement_before E st tst ctx i (inps ! unat i)) ?tk = Some m'"
      "json_path m' [''test_keys'', ''client_resolver'']
         = Some (JString (if save_real_resolver_ip st then resolver_ip ctx else []))"
      by blast
    then show ?thesis
      using True by (simp add: record_field_def run_with_index32_returns(3) [OF assms True])
  next
    case False
    then show ?thesis
      by (simp add: record_field_def run_with_index32_terminated(2) [OF assms False])
  qed
  moreover have "rwi_fault ?r = (if is_null_or_object ?tk then None else Some Terminated)"
    using run_with_index32_returns(1) [OF assms] run_with_index32_terminated(1) [OF assms]
    by simp
  moreover have "case rwi_submitted ?r of
                   None \<Rightarrow> True
                 | Some s \<Rightarrow> map_option (dump E) (rwi_measurement ?r) = Some (Inr s)"
    using rwi_submitted_is_dump [of E st tst inps ctx base i] by (simp split: option.splits)
  ultimately show ?thesis
    by simp
qed

theorem C5_client_resolver_injected_witness:
  "steady_elapsed example_env 0 < real (unat (max_runtime Settings_default)) * 0.9
 \<and> unat (0 :: 32 word) < length ['''']
 \<and> snd (nt_run example_env 0 Settings_default example_ctx [])
      = JObject [(''client_resolver'', JString ''8.8.8.8'')]
 \<and> record_field (run_with_index32 example_env Settings_default ''2018-11-01 12:00:00'' ['''']
       example_ctx [] 0) [''test_keys'', ''client_resolver''] = Some (JString ''91.80.37.85'')"
proof -
  have a: "steady_elapsed example_env 0 < real (unat (max_runtime Settings_default)) * 0.9"
    by (simp add: example_env_def Settings_default_def)
  have b: "unat (0 :: 32 word) < length ['''']"
    by simp
  have c: "snd (nt_run example_env 0 Settings_default example_ctx [])
      = JObject [(''client_resolver'', JString ''8.8.8.8'')]"
    by (simp add: example_env_def)
  show ?thesis
    using a b c C5_client_resolver_injected [OF a b, of "''2018-11-01 12:00:00''" example_ctx "[]"]
    by (simp add: Settings_default_def example_ctx_def)
qed

section \<open>A failing nettest\<close>





lemma succeeding_update_report [simp]: "update_report (succeeding E) = update_report E"
  by (simp add: succeeding_def fun_eq_iff update_report_def json_err_def split: sum.splits)

lemma succeeding_submit [simp]: "submit_measurement (succeeding E) = submit_measurement E"
proof -
  have "dump (succeeding E) = dump E"
    by (simp add: succeeding_def)
  then show ?thesis
    by (simp add: fun_eq_iff submit_measurement_def split: sum.splits)
qed

lemma succeeding_fields [simp]:
  "measurement_before (succeeding E) = measurement_before E"
  "measurement_after (succeeding E) = measurement_after E"
  "steady_elapsed (succeeding E) = steady_elapsed E"
  "nt_run (succeeding E) i st ctx inp = (True, snd (nt_run E i st ctx inp))"
  by (simp_all add: succeeding_def fun_eq_iff measurement_before_def measurement_after_def
        annotations_json_def format_system_clock_now_def split: option.splits)



section \<open>The dispatcher\<close>

text \<open>
  A property kept by every step of a worker, by an interrupt, and by the main thread
  going on, holds at the end.
\<close>

lemma dispatch_invariant:
  assumes "P s"
    and "\<And>w s. P s \<Longrightarrow> w \<in> set (live (d_workers s)) \<Longrightarrow> P (worker_step E st tst inps ctx base w s)"
    and "\<And>s. P s \<Longrightarrow> Interrupt \<in> set sched \<Longrightarrow> P (s\<lparr>d_interrupted := True\<rparr>)"
    and "\<And>s b. P s \<Longrightarrow> P (s\<lparr>d_main_left := b\<rparr>)"
  shows "P (dispatch E st tst inps ctx base sched s)"
  using assms(1,2,3)
proof (induction E st tst inps ctx base sched s rule: dispatch.induct)
  case (1 E st tst inps ctx base sched s)
  note main = assms(4)
  show ?case
  proof (cases "d_fault s \<noteq> None \<or> d_main_left s")
    case True
    then show ?thesis
      using "1.prems"(1) by (subst dispatch.simps) simp
  next
    case False
    show ?thesis
    proof (cases sched)
      case Nil
      show ?thesis
      proof (cases "live (d_workers s) = []")
        case True
        then show ?thesis
          using False Nil main [OF "1.prems"(1)] by (subst dispatch.simps) simp
      next
        case l: False
        have "P (worker_step E st tst inps ctx base (hd (live (d_workers s))) s)"
          using "1.prems"(1,2) l by simp
        then have "P (dispatch E st tst inps ctx base []
                        (worker_step E st tst inps ctx base (hd (live (d_workers s))) s))"
          using "1.IH"(1) [OF False Nil l] "1.prems"(2) by simp
        then show ?thesis
          using False Nil l by (subst dispatch.simps) simp
      qed
    next
      case (Cons x rest)
      show ?thesis
      proof (cases x)
        case (Pick k)
        show ?thesis
        proof (cases "live (d_workers s) = []")
          case True
          have "P (dispatch E st tst inps ctx base rest s)"
            using "1.IH"(2) [OF False Cons Pick True] "1.prems" Cons by simp
          then show ?thesis
            using False Cons Pick True by (subst dispatch.simps) simp
        next
          case l: False
          let ?w = "live (d_workers s) ! (k mod length (live (d_workers s)))"
          have "?w \<in> set (live (d_workers s))"
            using l by simp
          then have "P (worker_step E st tst inps ctx base ?w s)"
            using "1.prems"(1,2) by simp
          then have "P (dispatch E st tst inps ctx base rest (worker_step E st tst inps ctx base ?w s))"
            using "1.IH"(3) [OF False Cons Pick l] "1.prems"(2,3) Cons by simp
          then show ?thesis
            using False Cons Pick l by (subst dispatch.simps) simp
        qed
      next
        case Interrupt
        have "P (s\<lparr>d_interrupted := True\<rparr>)"
          using "1.prems"(1,3) Cons Interrupt by simp
        then have "P (dispatch E st tst inps ctx base rest (s\<lparr>d_interrupted := True\<rparr>))"
          using "1.IH"(4) [OF False Cons Interrupt] "1.prems"(2,3) Cons by simp
        then show ?thesis
          using False Cons Interrupt by (subst dispatch.simps) simp
      next
        case Poll
        show ?thesis
        proof (cases "d_active s = 0")
          case True
          then show ?thesis
            using False Cons Poll main [OF "1.prems"(1)] by (subst dispatch.simps) simp
        next
          case a: False
          have "P (dispatch E st tst inps ctx base rest s)"
            using "1.IH"(5) [OF False Cons Poll a] "1.prems" Cons by simp
          then show ?thesis
            using False Cons Poll a by (subst dispatch.simps) simp
        qed
      qed
    qed
  qed
qed

lemma worker_step_main_left [simp]:
  "d_main_left (worker_step E st tst inps ctx base w s) = d_main_left s"
  by (simp add: worker_step_def set_worker_def leave_def Let_def
        split: wstate.splits option.splits)

text \<open>How the dispatcher can end: by a fault, by the main thread going on, or with the main thread waiting for ever.\<close>

lemma dispatch_final:
  "let r = dispatch E st tst inps ctx base sched s
   in d_fault r \<noteq> None \<or> d_main_left r \<or> (live (d_workers r) = [] \<and> d_active r \<noteq> 0)"
proof (induction E st tst inps ctx base sched s rule: dispatch.induct)
  case (1 E st tst inps ctx base sched s)
  show ?case
    using "1.IH"
    by (subst dispatch.simps) (auto simp: Let_def split: list.splits sched_ev.splits)
qed

lemma dispatch_all_done:
  "Poll \<notin> set sched \<Longrightarrow> \<not> d_main_left s \<Longrightarrow>
   (let r = dispatch E st tst inps ctx base sched s
    in d_fault r = None \<longrightarrow> live (d_workers r) = [])"
proof (induction E st tst inps ctx base sched s rule: dispatch.induct)
  case (1 E st tst inps ctx base sched s)
  show ?case
    using "1.IH" "1.prems"
    by (subst dispatch.simps) (auto simp: Let_def split: list.splits sched_ev.splits)
qed

lemma count_update:
  "w < length ws \<Longrightarrow>
   length (filter P (ws[w := x])) + (if P (ws ! w) then 1 else 0)
     = length (filter P ws) + (if P x then 1 else 0)"
proof (induction ws arbitrary: w)
  case Nil
  then show ?case by simp
next
  case (Cons a ws)
  then show ?case
    by (cases w) auto
qed

lemma live_empty_count: "live ws = [] \<Longrightarrow> filter counted_in ws = []"
proof -
  assume "live ws = []"
  then have "\<forall>w < length ws. ws ! w = WDone"
    by (auto simp: live_def filter_empty_conv)
  then have "\<forall>x \<in> set ws. x = WDone"
    by (auto simp: in_set_conv_nth)
  then show ?thesis
    by (auto simp: filter_empty_conv)
qed

text \<open>
  The counter \<open>active\<close> is the number of the workers that have counted themselves in and
  not yet out, as long as no call has ended the process.
\<close>

lemma active_step:
  assumes len: "length (d_workers s) \<le> 255"
    and act: "d_fault s = None \<longrightarrow> unat (d_active s) = length (filter counted_in (d_workers s))"
    and w: "w \<in> set (live (d_workers s))"
  shows "length (d_workers (worker_step E st tst inps ctx base w s)) \<le> 255
     \<and> (d_fault (worker_step E st tst inps ctx base w s) = None \<longrightarrow>
          unat (d_active (worker_step E st tst inps ctx base w s))
            = length (filter counted_in (d_workers (worker_step E st tst inps ctx base w s))))"
proof -
  from w have wl: "w < length (d_workers s)" and nd: "d_workers s ! w \<noteq> WDone"
    by (auto simp: live_def)
  note cu = count_update [OF wl, of counted_in]
  have dec: "unat (d_active s - 1) + 1 = unat (d_active s)" if "0 < unat (d_active s)"
  proof -
    from that have "d_active s \<noteq> 0"
      by auto
    then show ?thesis
      using that by (simp add: unat_minus_one)
  qed
  have inc: "unat (d_active s + 1) = unat (d_active s) + 1" if "unat (d_active s) < 255"
  proof -
    from that have "unat (d_active s) + unat (1 :: 8 word) < 2 ^ LENGTH(8)"
      by simp
    then show ?thesis
      by (simp add: unat_add_lem [THEN iffD1])
  qed
  have le: "length (filter counted_in ((d_workers s)[w := x])) \<le> 255" for x
    using len length_filter_le [of counted_in "(d_workers s)[w := x]"] by simp
  show ?thesis
  proof (cases "d_fault s = None")
    case False
    then show ?thesis
      using len
      by (auto simp: worker_step_def set_worker_def leave_def Let_def
               split: wstate.splits option.splits)
  next
    case True
    with act have a: "unat (d_active s) = length (filter counted_in (d_workers s))"
      by simp
    show ?thesis
    proof (cases "d_workers s ! w")
      case WStart
      have "length (filter counted_in ((d_workers s)[w := WCheck])) = unat (d_active s) + 1"
        using cu [of WCheck] WStart a by simp
      moreover from this le [of WCheck] have "unat (d_active s) < 255"
        by simp
      ultimately show ?thesis
        using WStart len True inc by (simp add: worker_step_def set_worker_def)
    next
      case WCheck
      have 1: "length (filter counted_in ((d_workers s)[w := WDone])) + 1 = unat (d_active s)"
        using cu [of WDone] WCheck a by simp
      then have "0 < unat (d_active s)"
        by simp
      from dec [OF this] 1
      have 2: "unat (d_active s - 1) = length (filter counted_in ((d_workers s)[w := WDone]))"
        by simp
      have 3: "length (filter counted_in ((d_workers s)[w := WLock])) = unat (d_active s)"
        using cu [of WLock] WCheck a by simp
      show ?thesis
        using WCheck len True 2 3 by (simp add: worker_step_def set_worker_def leave_def)
    next
      case WLock
      have 1: "length (filter counted_in ((d_workers s)[w := WDone])) + 1 = unat (d_active s)"
        using cu [of WDone] WLock a by simp
      then have "0 < unat (d_active s)"
        by simp
      from dec [OF this] 1
      have 2: "unat (d_active s - 1) = length (filter counted_in ((d_workers s)[w := WDone]))"
        by simp
      have 3: "length (filter counted_in ((d_workers s)[w := WRun idx])) = unat (d_active s)" for idx
        using cu [of "WRun idx"] WLock a by simp
      show ?thesis
        using WLock len True 2 3 by (simp add: worker_step_def set_worker_def leave_def)
    next
      case (WRun idx)
      have 1: "length (filter counted_in ((d_workers s)[w := WDone])) + 1 = unat (d_active s)"
        using cu [of WDone] WRun a by simp
      then have "0 < unat (d_active s)"
        by simp
      from dec [OF this] 1
      have 2: "unat (d_active s - 1) = length (filter counted_in ((d_workers s)[w := WDone]))"
        by simp
      have 3: "length (filter counted_in ((d_workers s)[w := WCheck])) = unat (d_active s)"
        using cu [of WCheck] WRun a by simp
      show ?thesis
        using WRun len True 2 3
        by (simp add: worker_step_def set_worker_def leave_def Let_def split: option.splits)
    next
      case WDone
      with nd show ?thesis by simp
    qed
  qed
qed

text \<open>
  The dispatcher that starts with the threads just created ends by a fault or with the
  main thread going on: the main thread does not wait for ever.
\<close>

lemma dispatch_ends:
  "d_fault (dispatch E st tst inps ctx base sched (init_dstate p)) \<noteq> None
 \<or> d_main_left (dispatch E st tst inps ctx base sched (init_dstate p))"
proof -
  define Q where "Q = (\<lambda>s :: dstate. length (d_workers s) \<le> 255
      \<and> (d_fault s = None \<longrightarrow> unat (d_active s) = length (filter counted_in (d_workers s))))"
  let ?r = "dispatch E st tst inps ctx base sched (init_dstate p)"
  have "unat p < 2 ^ LENGTH(8)"
    by (rule unsigned_less)
  then have init: "Q (init_dstate p)"
    by (simp add: Q_def init_dstate_def)
  have "Q ?r"
  proof (rule dispatch_invariant [where P = Q])
    show "Q (init_dstate p)"
      by (rule init)
  next
    fix w s
    assume "Q s" and "w \<in> set (live (d_workers s))"
    then show "Q (worker_step E st tst inps ctx base w s)"
      using active_step [of s w E st tst inps ctx base] by (simp add: Q_def)
  next
    fix s
    assume "Q s"
    then show "Q (s\<lparr>d_interrupted := True\<rparr>)"
      by (simp add: Q_def)
  next
    fix s b
    assume "Q s"
    then show "Q (s\<lparr>d_main_left := b\<rparr>)"
      by (simp add: Q_def)
  qed
  moreover have "d_fault ?r \<noteq> None \<or> d_main_left ?r \<or> (live (d_workers ?r) = [] \<and> d_active ?r \<noteq> 0)"
    using dispatch_final [of E st tst inps ctx base sched "init_dstate p"] by (simp add: Let_def)
  ultimately show ?thesis
    using live_empty_count [of "d_workers ?r"] by (auto simp: Q_def unat_eq_0)
qed

lemma unat_ucast_64_32: "unat (i :: 64 word) < 2 ^ 32 \<Longrightarrow> unat (ucast i :: 32 word) = unat i"
  by (simp add: unsigned_ucast_eq take_bit_nat_eq_self)

lemma unat_claim:
  assumes "\<not> (d_i s > UINT32_MAX \<or> unat (d_i s) \<ge> length inps)"
  shows "unat (d_i s) < 2 ^ 32" and "unat (d_i s) < length inps"
    and "unat (d_i s + 1) = unat (d_i s) + 1"
proof -
  from assms have "\<not> UINT32_MAX < d_i s"
    by simp
  then have "d_i s \<le> UINT32_MAX"
    by (rule leI)
  then have "unat (d_i s) \<le> unat UINT32_MAX"
    by (simp add: word_le_nat_alt)
  then show le: "unat (d_i s) < 2 ^ 32"
    by (simp add: UINT32_MAX_def)
  from assms show "unat (d_i s) < length inps"
    by simp
  from le have "unat (d_i s) + unat (1 :: 64 word) < 2 ^ LENGTH(64)"
    by simp
  then show "unat (d_i s + 1) = unat (d_i s) + 1"
    by (simp add: unat_add_lem [THEN iffD1])
qed

lemma unat_exhausted:
  assumes "d_i s > UINT32_MAX \<or> unat (d_i s) \<ge> length inps"
  shows "min (length inps) (2 ^ 32) \<le> unat (d_i s)"
proof -
  have "UINT32_MAX < d_i s \<Longrightarrow> unat UINT32_MAX < unat (d_i s)"
    by (simp add: word_less_nat_alt)
  then have "UINT32_MAX < d_i s \<Longrightarrow> 2 ^ 32 \<le> unat (d_i s)"
    by (simp add: UINT32_MAX_def)
  with assms show ?thesis
    by auto
qed

text \<open>
  What the dispatcher does when the main thread reads \<open>active\<close> only after the workers
  are through. Without an interrupt, without a timeout and with nettests that leave null
  or an object in their test keys, the counter and the claims move in step, every held
  index is inside the inputs, and a worker has left only when the counter has reached the
  end of the inputs or the 32-bit ceiling: the indices claimed are, in the order of the
  claims, \<open>0, 1, ...\<close> up to the smaller of the number of inputs and \<open>2^32\<close>, and the
  main thread then goes on with no worker left behind.
\<close>

lemma dispatch_claims:
  assumes ni: "Interrupt \<notin> set sched"
    and np: "Poll \<notin> set sched"
    and nt: "\<And>i. unat i < length inps \<Longrightarrow> steady_elapsed E i < real (unat (max_runtime st)) * 0.9"
    and ok: "\<And>i. unat i < length inps \<Longrightarrow> is_null_or_object (snd (nt_run E i st ctx (inps ! unat i)))"
    and p: "p \<noteq> 0"
  shows "map (unat \<circ> snd) (d_claims (dispatch E st tst inps ctx base sched (init_dstate p)))
           = [0..<min (length inps) (2 ^ 32)]"
    and "\<forall>c \<in> set (d_claims (dispatch E st tst inps ctx base sched (init_dstate p))).
           fst c < unat p"
    and "d_fault (dispatch E st tst inps ctx base sched (init_dstate p)) = None"
    and "d_main_left (dispatch E st tst inps ctx base sched (init_dstate p))"
    and "live (d_workers (dispatch E st tst inps ctx base sched (init_dstate p))) = []"
proof -
  define N where "N = min (length inps) (2 ^ 32)"
  define P where "P = (\<lambda>s :: dstate. \<not> d_interrupted s \<and> d_fault s = None \<and> unat (d_i s) \<le> N
      \<and> map (unat \<circ> snd) (d_claims s) = [0..<unat (d_i s)]
      \<and> (\<forall>c \<in> set (d_claims s). fst c < unat p)
      \<and> length (d_workers s) = unat p
      \<and> (\<forall>w < length (d_workers s). \<forall>idx. d_workers s ! w = WRun idx \<longrightarrow> unat idx < length inps)
      \<and> ((\<exists>w < length (d_workers s). d_workers s ! w = WDone) \<longrightarrow> unat (d_i s) = N))"
  let ?s = "dispatch E st tst inps ctx base sched (init_dstate p)"
  have init: "P (init_dstate p)"
    by (auto simp: P_def init_dstate_def)
  have step: "P (worker_step E st tst inps ctx base w s)"
    if Ps: "P s" and w: "w \<in> set (live (d_workers s))" for w s
  proof -
    from w have wl: "w < length (d_workers s)" and nd: "d_workers s ! w \<noteq> WDone"
      by (auto simp: live_def)
    show ?thesis
    proof (cases "d_workers s ! w")
      case WStart
      then show ?thesis
        using Ps wl
        by (auto simp: P_def worker_step_def set_worker_def nth_list_update)
    next
      case WCheck
      then show ?thesis
        using Ps wl
        by (auto simp: P_def worker_step_def set_worker_def leave_def nth_list_update)
    next
      case WLock
      show ?thesis
      proof (cases "d_i s > UINT32_MAX \<or> unat (d_i s) \<ge> length inps")
        case True
        from unat_exhausted [OF True] have "N \<le> unat (d_i s)"
          by (simp add: N_def)
        then show ?thesis
          using Ps wl WLock True
          by (auto simp: P_def worker_step_def set_worker_def leave_def nth_list_update)
      next
        case False
        note c = unat_claim [OF False]
        have u: "unat (ucast (d_i s) :: 32 word) = unat (d_i s)"
          using c(1) by (rule unat_ucast_64_32)
        have "unat (d_i s) < N"
          using c(1,2) by (simp add: N_def)
        then show ?thesis
          using Ps wl WLock False c(2,3) u
          by (auto simp: P_def worker_step_def set_worker_def nth_list_update)
      qed
    next
      case (WRun idx)
      with Ps wl have r: "unat idx < length inps"
        by (auto simp: P_def)
      note ret = run_with_index32_returns(1,2) [OF nt [OF r] r ok [OF r], of tst base]
      then show ?thesis
        using Ps wl WRun
        by (auto simp: P_def worker_step_def set_worker_def Let_def nth_list_update)
    next
      case WDone
      with nd show ?thesis by simp
    qed
  qed
  have "P ?s"
  proof (rule dispatch_invariant [where P = P])
    show "P (init_dstate p)"
      by (rule init)
  next
    fix w s
    assume "P s" and "w \<in> set (live (d_workers s))"
    then show "P (worker_step E st tst inps ctx base w s)"
      by (rule step)
  next
    fix s
    assume "Interrupt \<in> set sched"
    with ni show "P (s\<lparr>d_interrupted := True\<rparr>)"
      by simp
  next
    fix s b
    assume "P s"
    then show "P (s\<lparr>d_main_left := b\<rparr>)"
      by (simp add: P_def)
  qed
  then show f: "d_fault ?s = None"
    by (simp add: P_def)
  with dispatch_ends [of E st tst inps ctx base sched p] show "d_main_left ?s"
    by simp
  have "\<not> d_main_left (init_dstate p)"
    by (simp add: init_dstate_def)
  from dispatch_all_done [OF np this, of E st tst inps ctx base] f
  show l: "live (d_workers ?s) = []"
    by (simp add: Let_def)
  have "\<exists>w < length (d_workers ?s). d_workers ?s ! w = WDone"
  proof -
    from \<open>P ?s\<close> have len: "length (d_workers ?s) = unat p"
      by (simp add: P_def)
    from p have "0 < unat p"
      by (simp add: unat_gt_0)
    with len have 0: "0 < length (d_workers ?s)"
      by simp
    from l have "0 \<notin> set (filter (\<lambda>w. d_workers ?s ! w \<noteq> WDone) [0..<length (d_workers ?s)])"
      by (simp add: live_def)
    with 0 have "d_workers ?s ! 0 = WDone"
      by simp
    with 0 show ?thesis
      by blast
  qed
  with \<open>P ?s\<close> show "map (unat \<circ> snd) (d_claims ?s) = [0..<min (length inps) (2 ^ 32)]"
    and "\<forall>c \<in> set (d_claims ?s). fst c < unat p"
    by (simp_all add: P_def N_def)
qed

lemma choose_parallelism_nonzero: "choose_parallelism E st \<noteq> 0"
  by (simp add: choose_parallelism_def default_parallelism_def word_greater_zero_iff)

section \<open>The trace of a run\<close>

lemma percentages_append [simp]: "percentages (xs @ ys) = percentages xs @ percentages ys"
  by (simp add: percentages_def map_filter_def)

lemma percentages_Nil [simp]: "percentages [] = []"
  by (simp add: percentages_def map_filter_def)

lemma percentages_Cons:
  "percentages (e # evs) = (case percentage_of e of None \<Rightarrow> [] | Some p \<Rightarrow> [p]) @ percentages evs"
  by (simp add: percentages_def map_filter_def split: option.splits)

lemma percentages_none: "''status.progress'' \<notin> fst ` set evs \<Longrightarrow> percentages evs = []"
  by (induction evs) (auto simp: percentages_Cons)

lemma values_of_append [simp]: "values_of k (xs @ ys) = values_of k xs @ values_of k ys"
  by (simp add: values_of_def)

lemma values_of_none: "k \<notin> fst ` set evs \<Longrightarrow> values_of k evs = []"
  by (induction evs) (auto simp: values_of_def)

subsection \<open>The keys of each stage\<close>

lemma stage_probe_ip_keys: "fst ` set (fst (stage_probe_ip E st ctx)) \<subseteq> {''failure.ip_lookup''}"
  by (auto simp: stage_probe_ip_def library_failure_ev_def Let_def split: prod.splits sum.splits)

lemma stage_probe_asn_keys: "fst ` set (fst (stage_probe_asn E st ctx)) \<subseteq> {''failure.asn_lookup''}"
  by (auto simp: stage_probe_asn_def library_failure_ev_def Let_def split: prod.splits sum.splits)

lemma stage_probe_cc_keys: "fst ` set (fst (stage_probe_cc E st ctx)) \<subseteq> {''failure.cc_lookup''}"
  by (auto simp: stage_probe_cc_def library_failure_ev_def Let_def split: prod.splits sum.splits)

lemma stage_resolver_keys: "fst ` set (fst (stage_resolver E st ctx)) \<subseteq> {''failure.resolver_lookup''}"
  by (auto simp: stage_resolver_def library_failure_ev_def split: prod.splits sum.splits)

lemma stage_open_report_keys:
  "fst ` set (fst (stage_open_report E st tst ctx)) \<subseteq> {''failure.report_create'', ''status.report_create''}"
  by (auto simp: stage_open_report_def library_failure_ev_def emit_ev_def Let_def
           split: prod.splits sum.splits)

lemma stage_close_report_keys:
  "fst ` set (stage_close_report E st ctx base) \<subseteq> {''failure.report_close'', ''status.report_close''}"
  by (auto simp: stage_close_report_def library_failure_ev_def emit_ev_def split: sum.splits)

lemma submit_measurement_keys:
  "fst ` set (fst (submit_measurement E st ctx base i m)) \<subseteq> measurement_keys"
  by (auto simp: submit_measurement_def emit_ev_def measurement_keys_def
           split: sum.splits prod.splits if_splits)

lemma run_with_index32_keys:
  "fst ` set (rwi_events (run_with_index32 E st tst inps ctx base i)) \<subseteq> measurement_keys"
proof -
  have "fst ` set (fst (submit_measurement E st ctx base i m)) \<subseteq> measurement_keys" for m
    by (rule submit_measurement_keys)
  then have s: "x \<in> set (fst (submit_measurement E st ctx base i m)) \<Longrightarrow> fst x \<in> measurement_keys"
    for x m
    by blast
  show ?thesis
    by (auto simp: run_with_index32_def Let_def emit_ev_def split_beta
             split: option.splits dest: s)
       (simp_all add: measurement_keys_def)
qed

lemma dispatch_keys:
  assumes "fst ` set (d_events s) \<subseteq> measurement_keys"
  shows "fst ` set (d_events (dispatch E st tst inps ctx base sched s)) \<subseteq> measurement_keys"
proof (rule dispatch_invariant [where P = "\<lambda>s. fst ` set (d_events s) \<subseteq> measurement_keys"])
  show "fst ` set (d_events s) \<subseteq> measurement_keys"
    by (rule assms)
next
  fix w and s :: dstate
  assume a: "fst ` set (d_events s) \<subseteq> measurement_keys"
  show "fst ` set (d_events (worker_step E st tst inps ctx base w s)) \<subseteq> measurement_keys"
  proof (cases "d_workers s ! w")
    case (WRun idx)
    with a run_with_index32_keys [of E st tst inps ctx base idx] show ?thesis
      by (auto simp: worker_step_def set_worker_def leave_def Let_def split: option.splits)
  qed (use a in \<open>simp_all add: worker_step_def set_worker_def leave_def\<close>)
next
  fix s :: dstate
  assume "fst ` set (d_events s) \<subseteq> measurement_keys"
  then show "fst ` set (d_events (s\<lparr>d_interrupted := True\<rparr>)) \<subseteq> measurement_keys"
    by simp
next
  fix s :: dstate and b
  assume "fst ` set (d_events s) \<subseteq> measurement_keys"
  then show "fst ` set (d_events (s\<lparr>d_main_left := b\<rparr>)) \<subseteq> measurement_keys"
    by simp
qed

lemma dispatch_init_keys:
  "fst ` set (d_events (dispatch E st tst inps ctx base sched (init_dstate p))) \<subseteq> measurement_keys"
  by (rule dispatch_keys) (simp add: init_dstate_def)

subsection \<open>The shape of the trace\<close>

text \<open>
  The main thread comes out of the measurements unless a call of run_with_index32 has
  ended the process.
\<close>

lemma main_goes_on_stage_measure:
  "main_goes_on (snd (snd (stage_measure E st tst ctx base sched)))
     = (nt_needs_input E \<and> inputs st = []
        \<or> d_fault (dispatch E st tst (prepare_inputs E st) ctx base sched
                     (init_dstate (choose_parallelism E st))) = None)"
  using dispatch_ends [of E st tst "prepare_inputs E st" ctx base sched "choose_parallelism E st"]
  by (auto simp: stage_measure_def main_goes_on_def Let_def)

lemma stage_measure_events:
  "fst (stage_measure E st tst ctx base sched)
     = (if nt_needs_input E \<and> inputs st = [] then []
        else d_events (dispatch E st tst (prepare_inputs E st) ctx base sched
                         (init_dstate (choose_parallelism E st)))
             @ (if d_fault (dispatch E st tst (prepare_inputs E st) ctx base sched
                              (init_dstate (choose_parallelism E st))) = None
                then [progress_ev 0.9 ''measurement complete'']
                     @ stage_close_report E st ctx base
                     @ [progress_ev 1.0 ''report close'']
                else []))"
  using dispatch_ends [of E st tst "prepare_inputs E st" ctx base sched "choose_parallelism E st"]
  by (auto simp: stage_measure_def Let_def)

lemma run_ctx_eq:
  "run_ctx (run E st sched)
     = fst (snd (stage_open_report E st (format_system_clock_now E Call_run) (ctx_resolver E st)))"
  "run_collector_base_url (run E st sched)
     = fst (snd (snd (stage_open_report E st (format_system_clock_now E Call_run) (ctx_resolver E st))))"
  "run_open_report_call (run E st sched)
     = snd (snd (snd (stage_open_report E st (format_system_clock_now E Call_run) (ctx_resolver E st))))"
  by (simp_all add: run_def Let_def ctx_geoip_def ctx_resolver_def split: prod.splits)

text \<open>The measurements of a run are those of the dispatcher on the prepared inputs.\<close>

lemma run_measure_eq:
  "run_inputs (run E st sched)
     = (if nt_needs_input E \<and> inputs st = [] then None else Some (prepare_inputs E st))"
  "run_claims (run E st sched)
     = (if nt_needs_input E \<and> inputs st = [] then []
        else d_claims (dispatch E st (format_system_clock_now E Call_run) (prepare_inputs E st)
               (run_ctx (run E st sched)) (run_collector_base_url (run E st sched)) sched
               (init_dstate (choose_parallelism E st))))"
  "run_fault (run E st sched)
     = (if nt_needs_input E \<and> inputs st = [] then None
        else d_fault (dispatch E st (format_system_clock_now E Call_run) (prepare_inputs E st)
               (run_ctx (run E st sched)) (run_collector_base_url (run E st sched)) sched
               (init_dstate (choose_parallelism E st))))"
  "run_workers_left (run E st sched)
     = (if nt_needs_input E \<and> inputs st = [] then False
        else live (d_workers (dispatch E st (format_system_clock_now E Call_run) (prepare_inputs E st)
               (run_ctx (run E st sched)) (run_collector_base_url (run E st sched)) sched
               (init_dstate (choose_parallelism E st)))) \<noteq> [])"
  by (simp_all add: run_def stage_measure_def Let_def split_beta)

lemma run_rv_eq:
  "run_rv (run E st sched) = (if run_fault (run E st sched) = None then Some True else None)"
proof -
  let ?m = "stage_measure E st (format_system_clock_now E Call_run) (run_ctx (run E st sched))
              (run_collector_base_url (run E st sched)) sched"
  have "run_rv (run E st sched) = (if main_goes_on (snd (snd ?m)) then Some True else None)"
    by (simp add: run_def Let_def split_beta)
  then show ?thesis
    by (auto simp: main_goes_on_stage_measure run_measure_eq(3))
qed

lemma run_shape:
  "\<exists>ev_lookup ev_res.
     run_events (run E st sched) =
       [(''status.queued'', JObject []), (''status.started'', JObject []),
        progress_ev 0.1 ''contact bouncer'']
       @ ev_lookup
       @ [progress_ev 0.2 ''geoip lookup'', geoip_lookup_ev (ctx_geoip E st)]
       @ ev_res
       @ [progress_ev 0.3 ''resolver lookup'',
          (''status.resolver_lookup'', JObject [(''resolver_ip'', JString (resolver_ip (ctx_resolver E st)))])]
       @ fst (stage_open_report E st (format_system_clock_now E Call_run) (ctx_resolver E st))
       @ [progress_ev 0.4 ''open report'']
       @ fst (stage_measure E st (format_system_clock_now E Call_run) (run_ctx (run E st sched))
                (run_collector_base_url (run E st sched)) sched)
       @ (if run_fault (run E st sched) = None then [end_ev E] else [])
   \<and> ev_lookup = fst (stage_probe_ip E st (stage_bouncer E st NettestContext_empty))
        @ fst (stage_probe_asn E st (snd (stage_probe_ip E st (stage_bouncer E st NettestContext_empty))))
        @ fst (stage_probe_cc E st (snd (stage_probe_asn E st (snd (stage_probe_ip E st
                 (stage_bouncer E st NettestContext_empty))))))
   \<and> ev_res = fst (stage_resolver E st (ctx_geoip E st))
   \<and> fst ` set ev_lookup \<subseteq> {''failure.ip_lookup'', ''failure.asn_lookup'', ''failure.cc_lookup''}
   \<and> fst ` set ev_res \<subseteq> {''failure.resolver_lookup''}"
proof -
  let ?c1 = "stage_bouncer E st NettestContext_empty"
  let ?c2 = "snd (stage_probe_ip E st ?c1)"
  let ?c3 = "snd (stage_probe_asn E st ?c2)"
  let ?ev_lookup = "fst (stage_probe_ip E st ?c1) @ fst (stage_probe_asn E st ?c2)
                      @ fst (stage_probe_cc E st ?c3)"
  let ?ev_res = "fst (stage_resolver E st (ctx_geoip E st))"
  let ?m = "stage_measure E st (format_system_clock_now E Call_run) (run_ctx (run E st sched))
              (run_collector_base_url (run E st sched)) sched"
  have "fst ` set ?ev_lookup \<subseteq> {''failure.ip_lookup'', ''failure.asn_lookup'', ''failure.cc_lookup''}"
    using stage_probe_ip_keys [of E st ?c1] stage_probe_asn_keys [of E st ?c2]
      stage_probe_cc_keys [of E st ?c3]
    by (auto simp: image_Un)
  moreover have "fst ` set ?ev_res \<subseteq> {''failure.resolver_lookup''}"
    by (rule stage_resolver_keys)
  moreover have "run_events (run E st sched) =
       [(''status.queued'', JObject []), (''status.started'', JObject []),
        progress_ev 0.1 ''contact bouncer'']
       @ ?ev_lookup
       @ [progress_ev 0.2 ''geoip lookup'', geoip_lookup_ev (ctx_geoip E st)]
       @ ?ev_res
       @ [progress_ev 0.3 ''resolver lookup'',
          (''status.resolver_lookup'', JObject [(''resolver_ip'', JString (resolver_ip (ctx_resolver E st)))])]
       @ fst (stage_open_report E st (format_system_clock_now E Call_run) (ctx_resolver E st))
       @ [progress_ev 0.4 ''open report'']
       @ fst ?m
       @ (if main_goes_on (snd (snd ?m)) then [end_ev E] else [])"
    by (simp add: run_def Let_def emit_ev_def ctx_geoip_def ctx_resolver_def split_beta)
  moreover have "main_goes_on (snd (snd ?m)) = (run_fault (run E st sched) = None)"
    by (auto simp: main_goes_on_stage_measure run_measure_eq(3))
  ultimately show ?thesis
    by simp
qed

lemma progress_percentage [simp]: "percentage_of (progress_ev p msg) = Some p"
  by (simp add: progress_ev_def)

lemma percentages_stage_measure:
  "percentages (fst (stage_measure E st tst ctx base sched))
     = (if nt_needs_input E \<and> inputs st = []
          \<or> d_fault (dispatch E st tst (prepare_inputs E st) ctx base sched
                       (init_dstate (choose_parallelism E st))) \<noteq> None
        then [] else [0.9, 1.0])"
proof -
  have "''status.progress'' \<notin> fst ` set (d_events (dispatch E st tst inps ctx base sched (init_dstate p)))"
    for inps p
    using dispatch_init_keys [of E st tst inps ctx base sched p]
    by (auto simp: measurement_keys_def)
  moreover have "''status.progress'' \<notin> fst ` set (stage_close_report E st ctx base)"
    using stage_close_report_keys [of E st ctx base] by auto
  ultimately show ?thesis
    by (simp add: stage_measure_events percentages_none percentages_Cons)
qed

text \<open>
  The percentages of a run: the last two are missing when the nettest needs input and has
  none, and when a nettest has ended the process.
\<close>

lemma percentages_run:
  "percentages (run_events (run E st sched))
     = [0.1, 0.2, 0.3, 0.4]
       @ (if nt_needs_input E \<and> inputs st = [] \<or> run_fault (run E st sched) \<noteq> None then []
          else [0.9, 1.0])"
proof -
  from run_shape [of E st sched] obtain ev_lookup ev_res where
    ev: "run_events (run E st sched) =
       [(''status.queued'', JObject []), (''status.started'', JObject []),
        progress_ev 0.1 ''contact bouncer'']
       @ ev_lookup
       @ [progress_ev 0.2 ''geoip lookup'', geoip_lookup_ev (ctx_geoip E st)]
       @ ev_res
       @ [progress_ev 0.3 ''resolver lookup'',
          (''status.resolver_lookup'', JObject [(''resolver_ip'', JString (resolver_ip (ctx_resolver E st)))])]
       @ fst (stage_open_report E st (format_system_clock_now E Call_run) (ctx_resolver E st))
       @ [progress_ev 0.4 ''open report'']
       @ fst (stage_measure E st (format_system_clock_now E Call_run) (run_ctx (run E st sched))
                (run_collector_base_url (run E st sched)) sched)
       @ (if run_fault (run E st sched) = None then [end_ev E] else [])"
    and l: "fst ` set ev_lookup \<subseteq> {''failure.ip_lookup'', ''failure.asn_lookup'', ''failure.cc_lookup''}"
    and r: "fst ` set ev_res \<subseteq> {''failure.resolver_lookup''}"
    by blast
  have 1: "percentages ev_lookup = []"
    using l by (intro percentages_none) auto
  have 2: "percentages ev_res = []"
    using r by (intro percentages_none) auto
  have 3: "percentages (fst (stage_open_report E st tst ctx)) = []" for tst ctx
    using stage_open_report_keys [of E st tst ctx] by (intro percentages_none) auto
  show ?thesis
    by (simp add: ev 1 2 3 percentages_stage_measure percentages_Cons geoip_lookup_ev_def end_ev_def
          run_measure_eq(3))
qed

lemma stage_measure_keys:
  "fst ` set (fst (stage_measure E st tst ctx base sched))
     \<subseteq> measurement_keys \<union> {''status.progress'', ''failure.report_close'', ''status.report_close''}"
  using dispatch_init_keys [of E st tst "prepare_inputs E st" ctx base sched "choose_parallelism E st"]
    stage_close_report_keys [of E st ctx base]
  by (auto simp: stage_measure_def Let_def progress_ev_def)

section \<open>The dispatcher and the main thread\<close>

lemma values_of_Cons: "values_of k (e # evs) = (if fst e = k then [snd e] else []) @ values_of k evs"
  by (simp add: values_of_def)

lemma values_of_Nil [simp]: "values_of k [] = []"
  by (simp add: values_of_def)

text \<open>The events of a run with a key that only run_with_index32 emits are those of the dispatcher.\<close>

lemma values_of_run_measurement:
  assumes "k \<in> measurement_keys"
  shows "values_of k (run_events (run E st sched))
     = (if nt_needs_input E \<and> inputs st = [] then []
        else values_of k (d_events (dispatch E st (format_system_clock_now E Call_run)
               (prepare_inputs E st) (run_ctx (run E st sched))
               (run_collector_base_url (run E st sched)) sched
               (init_dstate (choose_parallelism E st)))))"
proof -
  from run_shape [of E st sched] obtain ev_lookup ev_res where
    ev: "run_events (run E st sched) =
       [(''status.queued'', JObject []), (''status.started'', JObject []),
        progress_ev 0.1 ''contact bouncer'']
       @ ev_lookup
       @ [progress_ev 0.2 ''geoip lookup'', geoip_lookup_ev (ctx_geoip E st)]
       @ ev_res
       @ [progress_ev 0.3 ''resolver lookup'',
          (''status.resolver_lookup'', JObject [(''resolver_ip'', JString (resolver_ip (ctx_resolver E st)))])]
       @ fst (stage_open_report E st (format_system_clock_now E Call_run) (ctx_resolver E st))
       @ [progress_ev 0.4 ''open report'']
       @ fst (stage_measure E st (format_system_clock_now E Call_run) (run_ctx (run E st sched))
                (run_collector_base_url (run E st sched)) sched)
       @ (if run_fault (run E st sched) = None then [end_ev E] else [])"
    and l: "fst ` set ev_lookup \<subseteq> {''failure.ip_lookup'', ''failure.asn_lookup'', ''failure.cc_lookup''}"
    and r: "fst ` set ev_res \<subseteq> {''failure.resolver_lookup''}"
    by blast
  have 1: "values_of k ev_lookup = []"
    using l assms by (intro values_of_none) (auto simp: measurement_keys_def)
  have 2: "values_of k ev_res = []"
    using r assms by (intro values_of_none) (auto simp: measurement_keys_def)
  have 3: "values_of k (fst (stage_open_report E st tst ctx)) = []" for tst ctx
    using stage_open_report_keys [of E st tst ctx] assms
    by (intro values_of_none) (auto simp: measurement_keys_def)
  have 4: "values_of k (stage_close_report E st ctx base) = []" for ctx base
    using stage_close_report_keys [of E st ctx base] assms
    by (intro values_of_none) (auto simp: measurement_keys_def)
  have 5: "k \<noteq> ''status.queued''" "k \<noteq> ''status.started''" "k \<noteq> ''status.progress''"
    "k \<noteq> ''status.geoip_lookup''" "k \<noteq> ''status.resolver_lookup''" "k \<noteq> ''status.end''"
    using assms by (auto simp: measurement_keys_def)
  show ?thesis
    using 5
    by (simp add: ev 1 2 3 4 stage_measure_events values_of_Cons progress_ev_def
          geoip_lookup_ev_def end_ev_def)
qed

text \<open>
  When the main thread reads \<open>active\<close> only after the workers are through, and there is
  no interrupt, no timeout and no nettest that ends the process, the workers claim the
  indices \<open>0, 1, ...\<close> up to the smaller of the number of inputs and \<open>2^32\<close>, each once, and
  none is left behind when the main thread goes on.
\<close>

lemma run_claims_when_main_waits:
  assumes "Interrupt \<notin> set sched" and "Poll \<notin> set sched"
    and "\<And>i. steady_elapsed E i < real (unat (max_runtime st)) * 0.9"
    and "\<And>i ctx inp. is_null_or_object (snd (nt_run E i st ctx inp))"
    and "\<not> (nt_needs_input E \<and> inputs st = [])"
  shows "map (unat \<circ> snd) (run_claims (run E st sched))
           = [0..<min (length (prepare_inputs E st)) (2 ^ 32)]"
    and "\<not> run_workers_left (run E st sched)"
    and "run_fault (run E st sched) = None"
proof -
  have nt: "unat i < length (prepare_inputs E st) \<Longrightarrow>
      steady_elapsed E i < real (unat (max_runtime st)) * 0.9" for i
    by (rule assms(3))
  have ok: "unat i < length (prepare_inputs E st) \<Longrightarrow>
      is_null_or_object (snd (nt_run E i st (run_ctx (run E st sched)) (prepare_inputs E st ! unat i)))"
    for i
    by (rule assms(4))
  note d = dispatch_claims [where tst = "format_system_clock_now E Call_run"
      and base = "run_collector_base_url (run E st sched)", OF assms(1,2) nt ok choose_parallelism_nonzero]
  show "map (unat \<circ> snd) (run_claims (run E st sched))
           = [0..<min (length (prepare_inputs E st)) (2 ^ 32)]"
    and "\<not> run_workers_left (run E st sched)"
    and "run_fault (run E st sched) = None"
    using assms(5) d(1,3,5) by (auto simp: run_measure_eq)
qed

text \<open>When the main thread reads \<open>active\<close> before any worker has counted itself in, it goes on at once.\<close>

lemma dispatch_poll_first:
  "dispatch E st tst inps ctx base (Poll # rest) (init_dstate p) = (init_dstate p)\<lparr>d_main_left := True\<rparr>"
  by (subst dispatch.simps) (simp add: init_dstate_def)

lemma init_dstate_fields:
  "d_fault (init_dstate p) = None" "d_claims (init_dstate p) = []" "d_events (init_dstate p) = []"
  by (simp_all add: init_dstate_def)

lemma live_init: "p \<noteq> 0 \<Longrightarrow> live (d_workers (init_dstate p)) \<noteq> []"
proof -
  assume "p \<noteq> 0"
  then have "0 < unat p"
    by (simp add: unat_gt_0)
  then have "0 \<in> set (live (replicate (unat p) WStart))"
    by (simp add: live_def)
  then show ?thesis
    by (auto simp: init_dstate_def)
qed

text \<open>
  C7. A run of a nettest that takes input, with three inputs, no interrupt and no
  timeout, in which the main thread reads \<open>active\<close> before any of the workers it has just
  created has counted itself in. It reads zero and goes on: no index is claimed and no
  measurement starts, the run goes through its last two progress events and returns
  true, and the workers are left behind.
\<close>

theorem C7_main_thread_overtakes_workers:
  "nt_needs_input example_env_input
 \<and> run_inputs (run example_env_input example_settings_inputs [Poll]) = Some [''a'', ''b'', ''c'']
 \<and> Interrupt \<notin> set [Poll]
 \<and> (\<forall>i. steady_elapsed example_env_input i < real (unat (max_runtime example_settings_inputs)) * 0.9)
 \<and> run_claims (run example_env_input example_settings_inputs [Poll]) = []
 \<and> values_of ''status.measurement_start''
      (run_events (run example_env_input example_settings_inputs [Poll])) = []
 \<and> run_workers_left (run example_env_input example_settings_inputs [Poll])
 \<and> percentages (run_events (run example_env_input example_settings_inputs [Poll]))
      = [0.1, 0.2, 0.3, 0.4, 0.9, 1.0]
 \<and> run_rv (run example_env_input example_settings_inputs [Poll]) = Some True"
proof -
  have n: "nt_needs_input example_env_input" and i: "inputs example_settings_inputs \<noteq> []"
    by (simp_all add: example_env_input_def example_settings_inputs_def)
  have p: "prepare_inputs example_env_input example_settings_inputs = [''a'', ''b'', ''c'']"
    by (simp add: prepare_inputs_def example_env_input_def example_settings_inputs_def)
  have t: "steady_elapsed example_env_input i
             < real (unat (max_runtime example_settings_inputs)) * 0.9" for i
    by (simp add: example_env_input_def example_env_def example_settings_inputs_def
          Settings_default_def)
  have m: "''status.measurement_start'' \<in> measurement_keys"
    by (simp add: measurement_keys_def)
  have f: "run_fault (run example_env_input example_settings_inputs [Poll]) = None"
    using i by (simp add: run_measure_eq dispatch_poll_first init_dstate_fields)
  have l: "run_workers_left (run example_env_input example_settings_inputs [Poll])"
    using i live_init [OF choose_parallelism_nonzero, of example_env_input example_settings_inputs]
    by (simp add: run_measure_eq dispatch_poll_first)
  show ?thesis
    using n i t l
    by (simp add: run_measure_eq p values_of_run_measurement [OF m] dispatch_poll_first
          percentages_run run_rv_eq f init_dstate_fields)
qed

text \<open>
  The same run when the main thread reads \<open>active\<close> after the workers are through: the
  three indices are claimed, each once, and no worker is left behind.
\<close>

lemma main_thread_after_workers:
  "map (unat \<circ> snd) (run_claims (run example_env_input example_settings_inputs [Pick 1, Pick 0, Pick 2]))
     = [0, 1, 2]
 \<and> \<not> run_workers_left (run example_env_input example_settings_inputs [Pick 1, Pick 0, Pick 2])"
proof -
  have a: "Interrupt \<notin> set [Pick 1, Pick 0, Pick 2]" "Poll \<notin> set [Pick 1, Pick 0, Pick 2]"
    by simp_all
  have t: "steady_elapsed example_env_input i
             < real (unat (max_runtime example_settings_inputs)) * 0.9" for i
    by (simp add: example_env_input_def example_env_def example_settings_inputs_def
          Settings_default_def)
  have k: "is_null_or_object (snd (nt_run example_env_input i example_settings_inputs ctx inp))"
    for i ctx inp
    by (simp add: example_env_input_def example_env_def)
  have n: "\<not> (nt_needs_input example_env_input \<and> inputs example_settings_inputs = [])"
    by (simp add: example_settings_inputs_def)
  have p: "prepare_inputs example_env_input example_settings_inputs = [''a'', ''b'', ''c'']"
    by (simp add: prepare_inputs_def example_env_input_def example_settings_inputs_def)
  have u: "[0..<min (length [''a'', ''b'', ''c'']) (2 ^ 32)] = [0, 1, 2]"
    by (simp add: upt_rec)
  show ?thesis
    using run_claims_when_main_waits(1,2) [OF a t k n] by (simp add: p u)
qed

section \<open>Progress\<close>

text \<open>The percentages of a run never decrease.\<close>

lemma progress_monotone:
  "sorted (percentages (run_events (run E st sched)))
 \<and> percentages (run_events (run E st sched)) \<noteq> []"
  by (simp add: percentages_run)

text \<open>The events of a run with a key that only the stages of the report can emit.\<close>

lemma values_of_run_report:
  assumes "k \<in> {''failure.report_create'', ''status.report_create'',
                ''failure.report_close'', ''status.report_close''}"
  shows "values_of k (run_events (run E st sched))
     = values_of k (fst (stage_open_report E st (format_system_clock_now E Call_run) (ctx_resolver E st)))
       @ (if nt_needs_input E \<and> inputs st = [] \<or> run_fault (run E st sched) \<noteq> None then []
          else values_of k (stage_close_report E st (run_ctx (run E st sched))
                              (run_collector_base_url (run E st sched))))"
proof -
  from run_shape [of E st sched] obtain ev_lookup ev_res where
    ev: "run_events (run E st sched) =
       [(''status.queued'', JObject []), (''status.started'', JObject []),
        progress_ev 0.1 ''contact bouncer'']
       @ ev_lookup
       @ [progress_ev 0.2 ''geoip lookup'', geoip_lookup_ev (ctx_geoip E st)]
       @ ev_res
       @ [progress_ev 0.3 ''resolver lookup'',
          (''status.resolver_lookup'', JObject [(''resolver_ip'', JString (resolver_ip (ctx_resolver E st)))])]
       @ fst (stage_open_report E st (format_system_clock_now E Call_run) (ctx_resolver E st))
       @ [progress_ev 0.4 ''open report'']
       @ fst (stage_measure E st (format_system_clock_now E Call_run) (run_ctx (run E st sched))
                (run_collector_base_url (run E st sched)) sched)
       @ (if run_fault (run E st sched) = None then [end_ev E] else [])"
    and l: "fst ` set ev_lookup \<subseteq> {''failure.ip_lookup'', ''failure.asn_lookup'', ''failure.cc_lookup''}"
    and r: "fst ` set ev_res \<subseteq> {''failure.resolver_lookup''}"
    by blast
  have 1: "values_of k ev_lookup = []"
    using l assms by (intro values_of_none) auto
  have 2: "values_of k ev_res = []"
    using r assms by (intro values_of_none) auto
  have 3: "values_of k (d_events (dispatch E st tst inps ctx base sched (init_dstate p))) = []"
    for tst inps ctx base p
    using dispatch_init_keys [of E st tst inps ctx base sched p] assms
    by (intro values_of_none) (auto simp: measurement_keys_def)
  have 5: "k \<noteq> ''status.queued''" "k \<noteq> ''status.started''" "k \<noteq> ''status.progress''"
    "k \<noteq> ''status.geoip_lookup''" "k \<noteq> ''status.resolver_lookup''" "k \<noteq> ''status.end''"
    using assms by auto
  show ?thesis
    using 5
    by (simp add: ev 1 2 3 stage_measure_events values_of_Cons progress_ev_def
          geoip_lookup_ev_def end_ev_def run_measure_eq(3))
qed

lemma stage_collectors [simp]:
  "collectors (snd (stage_probe_ip E st ctx)) = collectors ctx"
  "collectors (snd (stage_probe_asn E st ctx)) = collectors ctx"
  "collectors (snd (stage_probe_cc E st ctx)) = collectors ctx"
  "collectors (snd (stage_resolver E st ctx)) = collectors ctx"
  by (simp_all add: stage_probe_ip_def stage_probe_asn_def stage_probe_cc_def stage_resolver_def
        Let_def split: prod.splits sum.splits)

lemma collectors_ctx_resolver:
  "collectors (ctx_resolver E st) = (if \<not> no_bouncer st then fst (snd (query_bouncer E st)) else [])"
  by (simp add: ctx_resolver_def ctx_geoip_def stage_bouncer_def NettestContext_empty_def split_beta)

lemma stage_open_report_discovered:
  assumes "\<not> no_collector st" and "collector_base_url st = []"
    and "open_report E st (discovered_collector (collectors ctx) []) tst ctx = (Inr (), rid)"
  shows "stage_open_report E st tst ctx
     = ([(''status.report_create'', JObject [(''report_id'', JString rid)])],
        ctx\<lparr>report_id := rid\<rparr>, discovered_collector (collectors ctx) [],
        Some (discovered_collector (collectors ctx) []))"
  using assms by (simp add: stage_open_report_def Let_def emit_ev_def)

text \<open>
  C4. A run of a nettest that needs input, with the default settings and so with no
  input, in an environment where the bouncer names a collector and the collector opens a
  report. The run opens the report and emits status.report_create, and then leaves the
  \<open>do ... while (0)\<close> at once: its percentages end with 0.4, not with 1.0, and it neither
  closes the report it has opened nor emits an event of the closing stage, and returns
  true.
\<close>

theorem C4_no_input_ends_at_0_4_with_report_open:
  "nt_needs_input example_env_report
 \<and> inputs Settings_default = []
 \<and> percentages (run_events (run example_env_report Settings_default [])) = [0.1, 0.2, 0.3, 0.4]
 \<and> last (percentages (run_events (run example_env_report Settings_default []))) \<noteq> 1.0
 \<and> run_open_report_call (run example_env_report Settings_default [])
      = Some ''https://b.collector.ooni.io''
 \<and> values_of ''status.report_create'' (run_events (run example_env_report Settings_default []))
      = [JObject [(''report_id'', JString ''RID7'')]]
 \<and> report_id (run_ctx (run example_env_report Settings_default [])) = ''RID7''
 \<and> values_of ''status.report_close'' (run_events (run example_env_report Settings_default [])) = []
 \<and> values_of ''failure.report_close'' (run_events (run example_env_report Settings_default [])) = []
 \<and> run_rv (run example_env_report Settings_default []) = Some True"
proof -
  have n: "nt_needs_input example_env_report" and i: "inputs Settings_default = []"
    by (simp_all add: example_env_report_def example_env_input_def Settings_default_def)
  have s: "\<not> no_collector Settings_default" "collector_base_url Settings_default = []"
    "\<not> no_bouncer Settings_default"
    by (simp_all add: Settings_default_def)
  have q: "query_bouncer example_env_report Settings_default
     = (Inr (), [\<lparr>ep_type = endpoint_type_https,
                   address = ''https://b.collector.ooni.io'', front = []\<rparr>], [])"
    by (simp add: query_bouncer_def example_env_report_def example_env_input_def example_env_def)
  have c: "discovered_collector (collectors (ctx_resolver example_env_report Settings_default)) []
     = ''https://b.collector.ooni.io''"
    using s(3) by (simp add: collectors_ctx_resolver q)
  have o: "open_report example_env_report Settings_default ''https://b.collector.ooni.io'' tst ctx
     = (Inr (), ''RID7'')" for tst ctx
    by (simp add: open_report_def example_env_report_def example_env_input_def example_env_def)
  have so: "stage_open_report example_env_report Settings_default tst
              (ctx_resolver example_env_report Settings_default)
     = ([(''status.report_create'', JObject [(''report_id'', JString ''RID7'')])],
        (ctx_resolver example_env_report Settings_default)\<lparr>report_id := ''RID7''\<rparr>,
        ''https://b.collector.ooni.io'', Some ''https://b.collector.ooni.io'')" for tst
    using stage_open_report_discovered [OF s(1,2), of example_env_report
        "ctx_resolver example_env_report Settings_default" tst "''RID7''"] o
    by (simp add: c)
  have f: "run_fault (run example_env_report Settings_default []) = None"
    using n i by (simp add: run_measure_eq)
  show ?thesis
    using n i
    by (simp add: percentages_run values_of_run_report run_ctx_eq so run_rv_eq f values_of_Cons)
qed

text \<open>
  The same run with inputs, when the main thread waits for the workers: the percentages
  end with 1.0 and the report is closed.
\<close>

lemma with_input_ends_at_1_with_report_closed:
  "percentages (run_events (run example_env_report example_settings_inputs []))
     = [0.1, 0.2, 0.3, 0.4, 0.9, 1.0]
 \<and> values_of ''status.report_create'' (run_events (run example_env_report example_settings_inputs []))
     = [JObject [(''report_id'', JString ''RID7'')]]
 \<and> values_of ''status.report_close'' (run_events (run example_env_report example_settings_inputs []))
     = [JObject [(''report_id'', JString ''RID7'')]]"
proof -
  have i: "inputs example_settings_inputs \<noteq> []"
    by (simp add: example_settings_inputs_def)
  have s: "\<not> no_collector example_settings_inputs" "collector_base_url example_settings_inputs = []"
    "\<not> no_bouncer example_settings_inputs"
    by (simp_all add: example_settings_inputs_def Settings_default_def)
  have q: "query_bouncer example_env_report example_settings_inputs
     = (Inr (), [\<lparr>ep_type = endpoint_type_https,
                   address = ''https://b.collector.ooni.io'', front = []\<rparr>], [])"
    by (simp add: query_bouncer_def example_env_report_def example_env_input_def example_env_def)
  have c: "discovered_collector (collectors (ctx_resolver example_env_report example_settings_inputs)) []
     = ''https://b.collector.ooni.io''"
    using s(3) by (simp add: collectors_ctx_resolver q)
  have o: "open_report example_env_report example_settings_inputs ''https://b.collector.ooni.io'' tst ctx
     = (Inr (), ''RID7'')" for tst ctx
    by (simp add: open_report_def example_env_report_def example_env_input_def example_env_def)
  have so: "stage_open_report example_env_report example_settings_inputs tst
              (ctx_resolver example_env_report example_settings_inputs)
     = ([(''status.report_create'', JObject [(''report_id'', JString ''RID7'')])],
        (ctx_resolver example_env_report example_settings_inputs)\<lparr>report_id := ''RID7''\<rparr>,
        ''https://b.collector.ooni.io'', Some ''https://b.collector.ooni.io'')" for tst
    using stage_open_report_discovered [OF s(1,2), of example_env_report
        "ctx_resolver example_env_report example_settings_inputs" tst "''RID7''"] o
    by (simp add: c)
  have cl: "close_report example_env_report base rid = Inr ()" for base rid
    by (simp add: close_report_def example_env_report_def)
  have a: "Interrupt \<notin> set ([] :: sched_ev list)" "Poll \<notin> set ([] :: sched_ev list)"
    by simp_all
  have t: "steady_elapsed example_env_report i
             < real (unat (max_runtime example_settings_inputs)) * 0.9" for i
    by (simp add: example_env_report_def example_env_input_def example_env_def
          example_settings_inputs_def Settings_default_def)
  have k: "is_null_or_object (snd (nt_run example_env_report i example_settings_inputs ctx inp))"
    for i ctx inp
    by (simp add: example_env_report_def example_env_input_def example_env_def)
  have n: "\<not> (nt_needs_input example_env_report \<and> inputs example_settings_inputs = [])"
    using i by simp
  note f = run_claims_when_main_waits(3) [OF a t k n]
  show ?thesis
    using i s(1)
    by (simp add: percentages_run values_of_run_report run_ctx_eq so f values_of_Cons
          stage_close_report_def cl emit_ev_def)
qed

section \<open>Opening the report\<close>

text \<open>
  The events of a run with a given key, for a key that only the stage that opens the
  report can emit.
\<close>

lemma values_of_run_report_create:
  assumes "k = ''failure.report_create'' \<or> k = ''status.report_create''"
  shows "values_of k (run_events (run E st sched))
     = values_of k (fst (stage_open_report E st (format_system_clock_now E Call_run) (ctx_resolver E st)))"
proof -
  have "values_of k (stage_close_report E st ctx base) = []" for ctx base
    using stage_close_report_keys [of E st ctx base] assms by (intro values_of_none) auto
  then show ?thesis
    using assms values_of_run_report [of k E st sched] by auto
qed

text \<open>
  With a collector configured, run takes it as the base URL and does not call
  open_report: no report is created, and neither event of the stage is emitted.
\<close>

lemma run_configured_collector:
  assumes "\<not> no_collector st" and "collector_base_url st \<noteq> []"
  shows "run_collector_base_url (run E st sched) = collector_base_url st"
    and "run_open_report_call (run E st sched) = None"
    and "report_id (run_ctx (run E st sched)) = report_id (ctx_resolver E st)"
    and "values_of ''failure.report_create'' (run_events (run E st sched)) = []"
    and "values_of ''status.report_create'' (run_events (run E st sched)) = []"
  using assms
  by (simp_all add: run_ctx_eq values_of_run_report_create stage_open_report_def)

text \<open>
  With no collector configured, run calls open_report with the address of the first
  discovered collector of type https, and emits failure.report_create if the call fails
  and status.report_create if it succeeds.
\<close>

lemma run_discovered_collector:
  assumes "\<not> no_collector st" and "collector_base_url st = []"
  shows "run_open_report_call (run E st sched)
           = Some (discovered_collector (collectors (ctx_resolver E st)) [])"
    and "run_collector_base_url (run E st sched)
           = discovered_collector (collectors (ctx_resolver E st)) []"
    and "(case fst (open_report E st (discovered_collector (collectors (ctx_resolver E st)) [])
                     (format_system_clock_now E Call_run) (ctx_resolver E st)) of
            Inl err \<Rightarrow>
              values_of ''failure.report_create'' (run_events (run E st sched))
                = [snd (library_failure_ev ''failure.report_create'' err)]
            \<and> values_of ''status.report_create'' (run_events (run E st sched)) = []
          | Inr u \<Rightarrow>
              values_of ''failure.report_create'' (run_events (run E st sched)) = []
            \<and> values_of ''status.report_create'' (run_events (run E st sched))
                = [JObject [(''report_id'', JString (report_id (run_ctx (run E st sched))))]])"
  using assms
  by (simp_all add: run_ctx_eq values_of_run_report_create stage_open_report_def Let_def
        values_of_Cons library_failure_ev_def emit_ev_def split: prod.splits sum.splits)

text \<open>
  C1. A run with the collector enabled and \<open>collector_base_url\<close> configured: the
  transport is down, so that open_report would fail. The run takes the configured URL as
  the collector's base, but it does not call open_report and emits neither
  failure.report_create nor status.report_create.
\<close>

theorem C1_configured_collector_not_opened:
  "\<not> no_collector example_settings_collector
 \<and> collector_base_url example_settings_collector = ''https://b.collector.ooni.io''
 \<and> run_collector_base_url (run example_env example_settings_collector []) = ''https://b.collector.ooni.io''
 \<and> run_open_report_call (run example_env example_settings_collector []) = None
 \<and> values_of ''failure.report_create'' (run_events (run example_env example_settings_collector [])) = []
 \<and> values_of ''status.report_create'' (run_events (run example_env example_settings_collector [])) = []"
proof -
  have a: "\<not> no_collector example_settings_collector"
    by (simp add: example_settings_collector_def Settings_default_def)
  have b: "collector_base_url example_settings_collector \<noteq> []"
    by (simp add: example_settings_collector_def)
  show ?thesis
    using a run_configured_collector [OF a b, of example_env "[]"]
    by (simp add: example_settings_collector_def)
qed

section \<open>The probe's address after a failed lookup\<close>

lemma lookup_ip_fails: "fst (lookup_ip E ip0) = Inl e \<Longrightarrow> snd (lookup_ip E ip0) = []"
  by (auto simp: lookup_ip_def Let_def split: sum.splits option.splits)

lemma stage_probe_asn_ip [simp]: "ctx_probe_ip (snd (stage_probe_asn E st ctx)) = ctx_probe_ip ctx"
  by (simp add: stage_probe_asn_def Let_def split: prod.splits sum.splits)

lemma stage_probe_cc_ip [simp]: "ctx_probe_ip (snd (stage_probe_cc E st ctx)) = ctx_probe_ip ctx"
  by (simp add: stage_probe_cc_def Let_def split: prod.splits sum.splits)

lemma ctx_geoip_probe_ip:
  "ctx_probe_ip (ctx_geoip E st)
     = (if probe_ip st = [] then
          (if \<not> no_ip_lookup st then snd (lookup_ip E ''127.0.0.1'') else ''127.0.0.1'')
        else probe_ip st)"
  by (simp add: ctx_geoip_def stage_probe_ip_def Let_def split: prod.splits sum.splits)

lemma values_of_run_geoip:
  "values_of ''status.geoip_lookup'' (run_events (run E st sched)) = [snd (geoip_lookup_ev (ctx_geoip E st))]"
proof -
  from run_shape [of E st sched] obtain ev_lookup ev_res where
    ev: "run_events (run E st sched) =
       [(''status.queued'', JObject []), (''status.started'', JObject []),
        progress_ev 0.1 ''contact bouncer'']
       @ ev_lookup
       @ [progress_ev 0.2 ''geoip lookup'', geoip_lookup_ev (ctx_geoip E st)]
       @ ev_res
       @ [progress_ev 0.3 ''resolver lookup'',
          (''status.resolver_lookup'', JObject [(''resolver_ip'', JString (resolver_ip (ctx_resolver E st)))])]
       @ fst (stage_open_report E st (format_system_clock_now E Call_run) (ctx_resolver E st))
       @ [progress_ev 0.4 ''open report'']
       @ fst (stage_measure E st (format_system_clock_now E Call_run) (run_ctx (run E st sched))
                (run_collector_base_url (run E st sched)) sched)
       @ (if run_fault (run E st sched) = None then [end_ev E] else [])"
    and l: "fst ` set ev_lookup \<subseteq> {''failure.ip_lookup'', ''failure.asn_lookup'', ''failure.cc_lookup''}"
    and r: "fst ` set ev_res \<subseteq> {''failure.resolver_lookup''}"
    by blast
  have 1: "values_of ''status.geoip_lookup'' ev_lookup = []"
    using l by (intro values_of_none) auto
  have 2: "values_of ''status.geoip_lookup'' ev_res = []"
    using r by (intro values_of_none) auto
  have 3: "values_of ''status.geoip_lookup'' (fst (stage_measure E st tst ctx base sched)) = []"
    for tst ctx base
    using stage_measure_keys [of E st tst ctx base sched]
    by (intro values_of_none) (auto simp: measurement_keys_def)
  have 4: "values_of ''status.geoip_lookup'' (fst (stage_open_report E st tst ctx)) = []" for tst ctx
    using stage_open_report_keys [of E st tst ctx] by (intro values_of_none) auto
  show ?thesis
    by (simp add: ev 1 2 3 4 values_of_Cons progress_ev_def geoip_lookup_ev_def end_ev_def)
qed

text \<open>
  The half of the statement that holds: with no configured address and the lookup disabled,
  the address in status.geoip_lookup is the default.
\<close>

lemma geoip_probe_ip_lookup_disabled:
  assumes "probe_ip st = []" and "no_ip_lookup st"
  shows "map (\<lambda>v. json_get v ''probe_ip'') (values_of ''status.geoip_lookup'' (run_events (run E st sched)))
           = [Some (JString ''127.0.0.1'')]"
  using assms by (simp add: values_of_run_geoip geoip_lookup_ev_def ctx_geoip_probe_ip)

text \<open>
  With no configured address and the lookup enabled, a failed lookup leaves the address
  empty: lookup_ip has cleared the default before it fails.
\<close>

lemma geoip_probe_ip_lookup_failed:
  assumes "probe_ip st = []" and "\<not> no_ip_lookup st" and "fst (lookup_ip E ''127.0.0.1'') = Inl e"
  shows "map (\<lambda>v. json_get v ''probe_ip'') (values_of ''status.geoip_lookup'' (run_events (run E st sched)))
           = [Some (JString [])]"
  using assms lookup_ip_fails [OF assms(3)]
  by (simp add: values_of_run_geoip geoip_lookup_ev_def ctx_geoip_probe_ip)

text \<open>
  C2. A run with the default settings (no \<open>probe_ip\<close>, the IP lookup enabled) in which
  the lookup fails because the transport is down: the address that status.geoip_lookup
  carries, and the one in the context, is the empty string and not \<open>127.0.0.1\<close>.
\<close>

theorem C2_failed_lookup_clears_probe_ip:
  "probe_ip Settings_default = []
 \<and> \<not> no_ip_lookup Settings_default
 \<and> fst (lookup_ip example_env ''127.0.0.1'') = Inl ErrContext_default
 \<and> map (\<lambda>v. json_get v ''probe_ip'')
      (values_of ''status.geoip_lookup'' (run_events (run example_env Settings_default [])))
    = [Some (JString [])]
 \<and> ctx_probe_ip (ctx_geoip example_env Settings_default) = []"
proof -
  have a: "probe_ip Settings_default = []" and b: "\<not> no_ip_lookup Settings_default"
    by (simp_all add: Settings_default_def)
  have c: "fst (lookup_ip example_env ''127.0.0.1'') = Inl ErrContext_default"
    by (simp add: lookup_ip_def example_env_def)
  show ?thesis
    using a b c geoip_probe_ip_lookup_failed [OF a b c, of "[]"] lookup_ip_fails [OF c]
    by (simp add: ctx_geoip_probe_ip)
qed

section \<open>Failures do not stop a run\<close>




lemma stage_bouncer_fields [simp]:
  "ctx_probe_ip (stage_bouncer E st ctx) = ctx_probe_ip ctx"
  "ctx_probe_asn (stage_bouncer E st ctx) = ctx_probe_asn ctx"
  "ctx_probe_cc (stage_bouncer E st ctx) = ctx_probe_cc ctx"
  "ctx_probe_network_name (stage_bouncer E st ctx) = ctx_probe_network_name ctx"
  "resolver_ip (stage_bouncer E st ctx) = resolver_ip ctx"
  "report_id (stage_bouncer E st ctx) = report_id ctx"
  "test_helpers (stage_bouncer E st ctx)
     = (if \<not> no_bouncer st then snd (snd (query_bouncer E st)) else test_helpers ctx)"
  by (simp_all add: stage_bouncer_def split_beta)

lemma stage_probe_ip_fields [simp]:
  "ctx_probe_asn (snd (stage_probe_ip E st ctx)) = ctx_probe_asn ctx"
  "ctx_probe_cc (snd (stage_probe_ip E st ctx)) = ctx_probe_cc ctx"
  "ctx_probe_network_name (snd (stage_probe_ip E st ctx)) = ctx_probe_network_name ctx"
  "resolver_ip (snd (stage_probe_ip E st ctx)) = resolver_ip ctx"
  "report_id (snd (stage_probe_ip E st ctx)) = report_id ctx"
  "test_helpers (snd (stage_probe_ip E st ctx)) = test_helpers ctx"
  by (simp_all add: stage_probe_ip_def Let_def split: prod.splits sum.splits)

lemma stage_probe_asn_fields [simp]:
  "ctx_probe_cc (snd (stage_probe_asn E st ctx)) = ctx_probe_cc ctx"
  "resolver_ip (snd (stage_probe_asn E st ctx)) = resolver_ip ctx"
  "report_id (snd (stage_probe_asn E st ctx)) = report_id ctx"
  "test_helpers (snd (stage_probe_asn E st ctx)) = test_helpers ctx"
  by (simp_all add: stage_probe_asn_def Let_def split: prod.splits sum.splits)


lemma stage_probe_cc_fields [simp]:
  "ctx_probe_asn (snd (stage_probe_cc E st ctx)) = ctx_probe_asn ctx"
  "ctx_probe_network_name (snd (stage_probe_cc E st ctx)) = ctx_probe_network_name ctx"
  "resolver_ip (snd (stage_probe_cc E st ctx)) = resolver_ip ctx"
  "report_id (snd (stage_probe_cc E st ctx)) = report_id ctx"
  "test_helpers (snd (stage_probe_cc E st ctx)) = test_helpers ctx"
  by (simp_all add: stage_probe_cc_def Let_def split: prod.splits sum.splits)


lemma stage_resolver_fields [simp]:
  "ctx_probe_ip (snd (stage_resolver E st ctx)) = ctx_probe_ip ctx"
  "ctx_probe_asn (snd (stage_resolver E st ctx)) = ctx_probe_asn ctx"
  "ctx_probe_cc (snd (stage_resolver E st ctx)) = ctx_probe_cc ctx"
  "ctx_probe_network_name (snd (stage_resolver E st ctx)) = ctx_probe_network_name ctx"
  "report_id (snd (stage_resolver E st ctx)) = report_id ctx"
  "test_helpers (snd (stage_resolver E st ctx)) = test_helpers ctx"
  "resolver_ip (snd (stage_resolver E st ctx))
     = (if \<not> no_resolver_lookup st then snd (lookup_resolver_ip E) else resolver_ip ctx)"
  by (simp_all add: stage_resolver_def split: prod.splits sum.splits)










subsection \<open>A run in which every call fails\<close>














section \<open>Numbers as booleans in the settings\<close>

lemma exec_macro_isl: "isl (exec_macro m path doc x) = isl (exec_macro m path doc y)"
  by (cases m; cases x; cases y) (simp_all split: sum.splits option.splits)

lemma accepts_iff: "accepts doc (path, m) \<longleftrightarrow> \<not> isl (exec_macro m path doc x)"
proof -
  have "isl (exec_macro m path doc (Settings_default, [])) = isl (exec_macro m path doc x)"
    by (rule exec_macro_isl)
  then show ?thesis
    by (cases "exec_macro m path doc (Settings_default, [])") (simp_all add: accepts_def)
qed

lemma exec_macros_succeeds:
  assumes "\<And>call. call \<in> set T \<Longrightarrow> accepts doc call"
  shows "\<exists>y. exec_macros T doc x = Inr y"
  using assms
proof (induction T arbitrary: x)
  case Nil
  then show ?case by simp
next
  case (Cons call T)
  obtain path m where call: "call = (path, m)"
    by (cases call)
  from Cons.prems have "accepts doc (path, m)"
    by (simp add: call)
  then have "\<not> isl (exec_macro m path doc x)"
    by (simp add: accepts_iff [of doc path m x])
  then obtain x' where "exec_macro m path doc x = Inr x'"
    by (cases "exec_macro m path doc x") simp_all
  moreover from Cons have "\<exists>y. exec_macros T doc x' = Inr y"
    by simp
  ultimately show ?case
    by (simp add: call)
qed

lemma exec_macro_warn:
  "exec_macro m path doc (s, w) = Inr (s', w') \<Longrightarrow> w' = w \<or> w' = bool_warning path"
  by (cases m) (auto split: sum.splits option.splits if_splits)

lemma exec_macros_warn:
  "exec_macros T doc (s, w) = Inr (s', w') \<Longrightarrow> w' = w \<or> w' \<in> bool_warning ` fst ` set T"
proof (induction T arbitrary: s w)
  case Nil
  then show ?case by simp
next
  case (Cons call T)
  obtain path m where call: "call = (path, m)"
    by (cases call)
  from Cons.prems obtain s1 w1 where
    1: "exec_macro m path doc (s, w) = Inr (s1, w1)" and 2: "exec_macros T doc (s1, w1) = Inr (s', w')"
    by (auto simp: call split: sum.splits)
  from exec_macro_warn [OF 1] Cons.IH [OF 2] show ?case
    by (auto simp: call)
qed

text \<open>A field that no call of a list assigns is as before after the calls.\<close>

lemma exec_macros_keeps:
  assumes "\<And>path m s w s' w'. (path, m) \<in> set T \<Longrightarrow>
             exec_macro m path doc (s, w) = Inr (s', w') \<Longrightarrow> get s' = get s"
    and "exec_macros T doc (s, w) = Inr (s', w')"
  shows "get s' = get s"
  using assms
proof (induction T arbitrary: s w)
  case Nil
  then show ?case by simp
next
  case (Cons call T)
  obtain path m where call: "call = (path, m)"
    by (cases call)
  from Cons.prems(2) obtain s1 w1 where
    1: "exec_macro m path doc (s, w) = Inr (s1, w1)" and 2: "exec_macros T doc (s1, w1) = Inr (s', w')"
    by (auto simp: call split: sum.splits)
  have "get s1 = get s"
    using Cons.prems(1) [of path m s w s1 w1] 1 by (simp add: call)
  moreover have "get s' = get s1"
    using Cons.IH [OF _ 2] Cons.prems(1) by (metis list.set_intros(2))
  ultimately show ?case
    by simp
qed

lemma numeric_not_bool: "get_double entry = Some n \<Longrightarrow> get_bool entry = None"
  by (cases entry) simp_all

lemma exec_bool_numeric:
  assumes "json_path doc (json_pointer p) = Some entry" and "get_double entry = Some n"
  shows "exec_macro (MAYBE_GET_BOOL assign) p doc (s, w) = Inr (assign (n \<noteq> 0) s, bool_warning p)"
  using assms numeric_not_bool [OF assms(2)]
  by (simp add: json_maybe_get_def)

text \<open>
  In a list of calls with pairwise different pointers, the call of MAYBE_GET_BOOL for a
  pointer at which the document holds a number decides the field, if no other call
  assigns it.
\<close>

lemma exec_macros_bool:
  assumes "distinct (map fst T)" and "(p, MAYBE_GET_BOOL assign) \<in> set T"
    and "\<And>v s. get (assign v s) = v"
    and "\<And>path m s w s' w'. (path, m) \<in> set T \<Longrightarrow> path \<noteq> p \<Longrightarrow>
           exec_macro m path doc (s, w) = Inr (s', w') \<Longrightarrow> get s' = get s"
    and "json_path doc (json_pointer p) = Some entry" and "get_double entry = Some n"
    and "exec_macros T doc (s, w) = Inr (s', w')"
  shows "get s' = (n \<noteq> 0) \<and> w' \<in> bool_warning ` fst ` set T"
  using assms(1,2,4,7)
proof (induction T arbitrary: s w)
  case Nil
  then show ?case by simp
next
  case (Cons call T)
  obtain path m where call: "call = (path, m)"
    by (cases call)
  from Cons.prems(4) obtain s1 w1 where
    1: "exec_macro m path doc (s, w) = Inr (s1, w1)" and 2: "exec_macros T doc (s1, w1) = Inr (s', w')"
    by (auto simp: call split: sum.splits)
  show ?case
  proof (cases "path = p")
    case True
    with Cons.prems(1) have notin: "p \<notin> fst ` set T"
      by (simp add: call)
    with Cons.prems(2) True have m: "m = MAYBE_GET_BOOL assign"
      by (auto simp: call image_iff)
    from 1 have s1: "s1 = assign (n \<noteq> 0) s" and w1: "w1 = bool_warning p"
      using exec_bool_numeric [OF assms(5,6), of assign s w] by (simp_all add: m True)
    have "get s' = get s1"
    proof (rule exec_macros_keeps [OF _ 2])
      fix path' m' t v t' v'
      assume a: "(path', m') \<in> set T" and b: "exec_macro m' path' doc (t, v) = Inr (t', v')"
      from a notin have "path' \<noteq> p"
        by (auto simp: image_iff)
      with a b show "get t' = get t"
        using Cons.prems(3) [of path' m' t v t' v'] by simp
    qed
    moreover from exec_macros_warn [OF 2] have "w' = bool_warning p \<or> w' \<in> bool_warning ` fst ` set T"
      by (simp add: w1)
    ultimately show ?thesis
      using assms(3) by (auto simp: s1 call True)
  next
    case False
    with Cons.prems(2) have "(p, MAYBE_GET_BOOL assign) \<in> set T"
      by (simp add: call)
    moreover from Cons.prems(1) have "distinct (map fst T)"
      by simp
    ultimately have "get s' = (n \<noteq> 0) \<and> w' \<in> bool_warning ` fst ` set T"
      using Cons.IH [OF _ _ _ 2] Cons.prems(3) by (metis list.set_intros(2))
    then show ?thesis
      by auto
  qed
qed

lemma distinct_settings_table: "distinct (map fst settings_table)"
  by (simp add: settings_table_def)

text \<open>A call keeps every field that its assignment does not touch.\<close>

lemma keeps_macro:
  "\<forall>v t. get (a1 v t) = get t \<Longrightarrow> keeps get (path, MAYBE_GET_map a1)"
  "\<forall>v t. get (a2 v t) = get t \<Longrightarrow> keeps get (path, MAYBE_GET_vector a2)"
  "\<forall>v t. get (a3 v t) = get t \<Longrightarrow> keeps get (path, MAYBE_GET_string a3)"
  "\<forall>v t. get (a4 v t) = get t \<Longrightarrow> keeps get (path, MAYBE_GET_BOOL a4)"
  "\<forall>v t. get (a5 v t) = get t \<Longrightarrow> keeps get (path, MAYBE_GET_UINT8 a5)"
  "\<forall>v t. get (a6 v t) = get t \<Longrightarrow> keeps get (path, MAYBE_GET_UINT16 a6)"
  "\<forall>l t. get (t\<lparr>log_level := l\<rparr>) = get t \<Longrightarrow> keeps get (path, GET_LOG_LEVEL)"
  by (auto simp: keeps_def split: sum.splits option.splits if_splits)

lemma settings_table_keeps:
  assumes "(p, get) \<in> set bool_options"
  shows "list_all (\<lambda>call. fst call = p \<or> keeps get call) settings_table"
  using assms
  apply (simp add: bool_options_def)
  apply (elim disjE conjE)
  apply (simp_all add: settings_table_def keeps_macro)
  done

lemma bool_options_in_table:
  assumes "(p, get) \<in> set bool_options"
  shows "\<exists>assign. (p, MAYBE_GET_BOOL assign) \<in> set settings_table \<and> (\<forall>v s. get (assign v s) = v)"
  using assms
  apply (simp add: bool_options_def)
  apply (elim disjE conjE)
  apply (simp_all add: settings_table_def)
  done

text \<open>The warning after a call: that of the call when it reads a number as a boolean, and the one before otherwise.\<close>

lemma exec_macro_warning:
  "exec_macro m path doc (s, w) = Inr (s', w') \<Longrightarrow>
   w' = (if is_bool_macro m \<and> holds_number doc path then bool_warning path else w)"
proof (cases m)
  case (MAYBE_GET_BOOL assign)
  assume "exec_macro m path doc (s, w) = Inr (s', w')"
  then show ?thesis
    using numeric_not_bool [of _ _]
    by (cases "json_path doc (json_pointer path)")
       (auto simp: MAYBE_GET_BOOL json_maybe_get_def holds_number_def
             split: option.splits if_splits)
qed (auto split: sum.splits option.splits if_splits)

text \<open>The warning after a list of calls: that of the last call that reads a number as a boolean.\<close>

lemma exec_macros_warning:
  "exec_macros T doc (s, w) = Inr (s', w') \<Longrightarrow>
   w' = (case filter (\<lambda>c. is_bool_macro (snd c) \<and> holds_number doc (fst c)) T of
           [] \<Rightarrow> w
         | c # cs \<Rightarrow> bool_warning (fst (last (c # cs))))"
proof (induction T arbitrary: s w)
  case Nil
  then show ?case by simp
next
  case (Cons call T)
  obtain path m where call: "call = (path, m)"
    by (cases call)
  from Cons.prems obtain s1 w1 where
    1: "exec_macro m path doc (s, w) = Inr (s1, w1)" and 2: "exec_macros T doc (s1, w1) = Inr (s', w')"
    by (auto simp: call split: sum.splits)
  from exec_macro_warning [OF 1] Cons.IH [OF 2] show ?case
    by (auto simp: call split: list.splits)
qed

lemma bool_calls_of_table:
  "map fst (filter (\<lambda>c. is_bool_macro (snd c)) settings_table) = map fst bool_options"
  by (simp add: settings_table_def bool_options_def)

lemma numeric_bool_calls:
  "map fst (filter (\<lambda>c. is_bool_macro (snd c) \<and> holds_number doc (fst c)) settings_table)
     = filter (holds_number doc) (map fst bool_options)"
proof -
  have "filter (\<lambda>c. is_bool_macro (snd c) \<and> holds_number doc (fst c)) settings_table
      = filter (\<lambda>c. holds_number doc (fst c)) (filter (\<lambda>c. is_bool_macro (snd c)) settings_table)"
    by (simp add: conj_commute)
  then have "map fst (filter (\<lambda>c. is_bool_macro (snd c) \<and> holds_number doc (fst c)) settings_table)
      = filter (holds_number doc) (map fst (filter (\<lambda>c. is_bool_macro (snd c)) settings_table))"
    by (simp add: filter_map o_def)
  then show ?thesis
    by (simp add: bool_calls_of_table)
qed

lemma parse_settings_warning:
  assumes "exec_macros settings_table doc (s, w) = Inr (s', w')"
    and "filter (holds_number doc) (map fst bool_options) \<noteq> []"
  shows "w' = bool_warning (last (filter (holds_number doc) (map fst bool_options)))"
proof -
  let ?F = "filter (\<lambda>c. is_bool_macro (snd c) \<and> holds_number doc (fst c)) settings_table"
  from assms(2) have ne: "?F \<noteq> []"
    using numeric_bool_calls [of doc] by (metis map_is_Nil_conv)
  then obtain c cs where F: "?F = c # cs"
    by (cases ?F) simp_all
  from exec_macros_warning [OF assms(1)] have "w' = bool_warning (fst (last ?F))"
    by (simp add: F)
  also have "fst (last ?F) = last (map fst ?F)"
    using ne by (simp add: last_map)
  finally show ?thesis
    by (simp add: numeric_bool_calls)
qed

text \<open>
  C8, as amended. Let the settings parse to a document of the right shape in which a
  boolean option holds a number, and let every other call of parse_settings accept what
  the document holds for it. Then parse_settings succeeds, the field of the option is
  true exactly when the number is not zero, and the warning it returns is the
  deprecation warning with the pointer of the last of the boolean options, in the order
  of the calls, that hold a number.
\<close>

theorem C8_numeric_boolean:
  assumes opt: "(p, get) \<in> set bool_options"
    and parse: "json_parse E str = Inr doc"
    and shape: "check_document doc = None"
    and entry: "json_path doc (json_pointer p) = Some entry"
    and num: "get_double entry = Some n"
    and others: "\<And>call. call \<in> set settings_table \<Longrightarrow> fst call \<noteq> p \<Longrightarrow> accepts doc call"
  shows "\<exists>s'. parse_settings E str s w =
            Inr (s', ''Found number variable at '' @ [CHR 0x27]
                     @ last (filter (holds_number doc) (map fst bool_options)) @ [CHR 0x27]
                     @ '' and '' @ ''treating it as boolean. This is for backward ''
                     @ ''compatibility with MK <= 0.9.0-alpha.9 where we ''
                     @ ''did not allow boolean variables. Change your ''
                     @ ''code to use boolean to get rid of this warning. ''
                     @ ''Be aware that we will remove this backward ''
                     @ ''compatibility hack in the future, so change your ''
                     @ ''code today to avoid your app breaking sometime ''
                     @ ''in the future. Please!'')
           \<and> get s' = (n \<noteq> 0)"
proof -
  from bool_options_in_table [OF opt] obtain assign where
    mem: "(p, MAYBE_GET_BOOL assign) \<in> set settings_table" and get: "\<And>v s. get (assign v s) = v"
    by blast
  have "accepts doc call" if "call \<in> set settings_table" for call
  proof (cases "fst call = p")
    case True
    with that mem distinct_settings_table have "call = (p, MAYBE_GET_BOOL assign)"
      by (metis eq_key_imp_eq_value prod.collapse)
    then show ?thesis
      using exec_bool_numeric [OF entry num, of assign Settings_default "[]"]
      by (simp add: accepts_def)
  next
    case False
    with that show ?thesis
      by (rule others)
  qed
  then obtain y where "exec_macros settings_table doc (s, w) = Inr y"
    using exec_macros_succeeds [of settings_table doc "(s, w)"] by blast
  then obtain s' w' where run: "exec_macros settings_table doc (s, w) = Inr (s', w')"
    by (cases y) simp
  have frame: "get t' = get t"
    if "(path, m) \<in> set settings_table" and "path \<noteq> p"
      and "exec_macro m path doc (t, v) = Inr (t', v')" for path m t v t' v'
  proof -
    from settings_table_keeps [OF opt] that(1,2) have "keeps get (path, m)"
      by (auto simp: list_all_iff)
    then have "\<forall>doc s w s' w'. exec_macro m path doc (s, w) = Inr (s', w') \<longrightarrow> get s' = get s"
      by (simp add: keeps_def)
    with that(3) show ?thesis
      by blast
  qed
  from exec_macros_bool [OF distinct_settings_table mem get frame entry num run]
  have g: "get s' = (n \<noteq> 0)"
    by simp
  have "holds_number doc p"
    by (simp add: holds_number_def entry num)
  moreover from opt have "p \<in> set (map fst bool_options)"
    by force
  ultimately have "p \<in> set (filter (holds_number doc) (map fst bool_options))"
    by simp
  then have "0 < length (filter (holds_number doc) (map fst bool_options))"
    by (rule length_pos_if_in_set)
  then have "filter (holds_number doc) (map fst bool_options) \<noteq> []"
    by (rule length_greater_0_conv [THEN iffD1])
  from parse_settings_warning [OF run this]
  have "w' = bool_warning (last (filter (holds_number doc) (map fst bool_options)))" .
  moreover have "parse_settings E str s w = Inr (s', w')"
    by (simp add: parse_settings_def parse shape run)
  ultimately show ?thesis
    using g unfolding bool_warning_def by blast
qed

lemma example_settings_accepted:
  "list_all (\<lambda>call. fst call = ''/options/no_bouncer'' \<or> accepts example_settings_doc call)
     settings_table"
  by (simp add: settings_table_def accepts_def json_maybe_get_def json_pointer_def
        example_settings_doc_def maybe_get_uint_def)

lemma example_settings_numeric:
  "filter (holds_number example_settings_doc) (map fst bool_options)
     = [''/options/no_bouncer'', ''/options/no_collector'']"
  by (simp add: bool_options_def holds_number_def json_pointer_def example_settings_doc_def)

theorem C8_numeric_boolean_witness:
  \<open>(''/options/no_bouncer'', no_bouncer) \<in> set bool_options
 \<and> json_parse example_env_settings ''{"name": "dummy", "options": {"no_bouncer": 1, "no_collector": 0.0}}''
      = Inr example_settings_doc
 \<and> check_document example_settings_doc = None
 \<and> json_path example_settings_doc (json_pointer ''/options/no_bouncer'') = Some (JInt 1)
 \<and> get_double (JInt 1) = Some 1
 \<and> list_all (\<lambda>call. fst call = ''/options/no_bouncer'' \<or> accepts example_settings_doc call)
      settings_table
 \<and> (\<exists>s'. parse_settings example_env_settings
             ''{"name": "dummy", "options": {"no_bouncer": 1, "no_collector": 0.0}}''
             Settings_default [] = Inr (s', bool_warning ''/options/no_collector'')
         \<and> no_bouncer s')\<close>
proof -
  let ?str = \<open>''{"name": "dummy", "options": {"no_bouncer": 1, "no_collector": 0.0}}''\<close>
  have a: "(''/options/no_bouncer'', no_bouncer) \<in> set bool_options"
    by (simp add: bool_options_def)
  have b: "json_parse example_env_settings ?str = Inr example_settings_doc"
    by (simp add: example_env_settings_def)
  have c: "check_document example_settings_doc = None"
    by (simp add: check_document_def example_settings_doc_def)
  have d: "json_path example_settings_doc (json_pointer ''/options/no_bouncer'') = Some (JInt 1)"
    by (simp add: json_pointer_def example_settings_doc_def)
  have e: "get_double (JInt 1) = Some 1"
    by simp
  have f: "accepts example_settings_doc call"
    if "call \<in> set settings_table" and "fst call \<noteq> ''/options/no_bouncer''" for call
    using example_settings_accepted that by (auto simp: list_all_iff)
  show ?thesis
    using a b c d e example_settings_accepted
      C8_numeric_boolean [OF a b c d e f, of Settings_default "[]"]
    by (simp add: example_settings_numeric bool_warning_def)
qed

text \<open>
  The statement without the amendment fails when another entry of the document is not
  valid: here the option no_bouncer holds the number 1 and the port is out of range, and
  parse_settings returns false with the error of the port.
\<close>

theorem C8_counterexample:
  \<open>json_parse example_env_settings_port
      ''{"name": "dummy", "options": {"no_bouncer": 1, "port": 70000}}''
      = Inr example_settings_doc_port
 \<and> check_document example_settings_doc_port = None
 \<and> json_path example_settings_doc_port (json_pointer ''/options/no_bouncer'') = Some (JInt 1)
 \<and> get_double (JInt 1) = Some 1
 \<and> parse_settings example_env_settings_port
      ''{"name": "dummy", "options": {"no_bouncer": 1, "port": 70000}}'' Settings_default []
      = Inl (out_of_range_error_gen ''/options/port'' 0 65535)\<close>
proof -
  have b: "json_parse example_env_settings_port str = Inr example_settings_doc_port" for str
    by (simp add: example_env_settings_port_def)
  have c: "check_document example_settings_doc_port = None"
    by (simp add: check_document_def example_settings_doc_port_def)
  have d: "json_path example_settings_doc_port (json_pointer ''/options/no_bouncer'') = Some (JInt 1)"
    by (simp add: json_pointer_def example_settings_doc_port_def)
  have e: "exec_macros settings_table example_settings_doc_port (Settings_default, [])
             = Inl (out_of_range_error_gen ''/options/port'' 0 65535)"
    by (simp add: settings_table_def json_maybe_get_def json_pointer_def
          example_settings_doc_port_def maybe_get_uint_def)
  show ?thesis
    by (simp add: b c d parse_settings_def e)
qed

end
